theory Spec2Isabelle
  imports Main "HOL-Library.Word" "HOL-Library.Sublist"
begin

section \<open>Data model of disk\_analyzer.py\<close>

text \<open>
  A Python \<open>bytes\<close> object is a list of 8-bit words. A Python \<open>str\<close> that may hold
  non-ASCII text (the Russian type descriptions, the UTF-16 partition names) is a list of
  Unicode code points; a \<open>str\<close> that is ASCII by construction (hex dumps, formatted
  sizes) is a \<open>string\<close>. Python integers are \<open>int\<close>.
\<close>

type_synonym byte = "8 word"
type_synonym ustr = "nat list"

definition asc :: "string \<Rightarrow> ustr" where
  "asc s = map of_char s"

datatype error = ValueError | IndexError | OverflowError | OSError | FileNotFoundError

datatype PartitionType = MBR | GPT | UNKNOWN

record PartitionEntry =
  number :: int
  type :: ustr
  type_code :: int
  start_sector :: int
  size_sectors :: int
  end_sector :: int
  size_bytes :: int
  size_human :: string
  guid :: string
  name :: ustr
  attributes :: int
  is_active :: bool

text \<open>
  The fields of a \<open>DiskAnalyzer\<close> object. The path \<open>disk_image\<close> is not a field of
  the model: the file it names is passed to \<open>analyze\<close> as its content (\<open>None\<close> when
  the file does not exist).
\<close>

record DiskAnalyzer =
  sector_size :: int
  partition_type :: PartitionType
  partitions :: "PartitionEntry list"
  boot_signature :: string
  disk_size :: int

definition init :: "int \<Rightarrow> DiskAnalyzer" where
  "init ss = \<lparr>sector_size = ss, partition_type = UNKNOWN, partitions = [],
              boot_signature = '''', disk_size = 0\<rparr>"

section \<open>Bytes, slices and the file object\<close>

text \<open>Python's \<open>xs[a:b]\<close> for constant \<open>0 \<le> a \<le> b\<close>: never raises, may be short.\<close>

definition slice :: "nat \<Rightarrow> nat \<Rightarrow> 'a list \<Rightarrow> 'a list" where
  "slice a b xs = take (b - a) (drop a xs)"

text \<open>
  \<open>struct.unpack('<I', b)[0]\<close> and \<open>struct.unpack('<Q', b)[0]\<close>: the little-endian
  unsigned value of \<open>b\<close>. The library raises unless \<open>b\<close> has exactly 4 (8) bytes; every
  call in the source slices a buffer whose length was checked just before (lemma
  \<open>length_slice\<close>), so that branch is unreachable and \<open>unpack_le\<close> is total.
\<close>

fun unpack_le :: "byte list \<Rightarrow> int" where
  "unpack_le [] = 0"
| "unpack_le (b # bs) = uint b + 256 * unpack_le bs"

text \<open>
  The buffered binary file \<open>f\<close>: its content and a position. \<open>f.read(n)\<close> raises
  ValueError for \<open>n < -1\<close> and OverflowError for an \<open>n\<close> that does not fit a signed
  64-bit size, reads to the end for \<open>n = -1\<close>, and otherwise returns at most \<open>n\<close>
  bytes; it returns the data and the new position. \<open>f.seek(off)\<close> raises for a negative
  offset and for one that does not fit a signed 64-bit file offset. Which exception class
  is raised makes no difference to \<open>analyze\<close>, which catches them all.
\<close>

definition file_read :: "byte list \<Rightarrow> nat \<Rightarrow> int \<Rightarrow> error + (byte list \<times> nat)" where
  "file_read img pos n =
     (if n < -1 then Inl ValueError
      else if 2 ^ 63 \<le> n then Inl OverflowError
      else let d = (if n = -1 then drop pos img else take (nat n) (drop pos img))
           in Inr (d, pos + length d))"

definition file_seek :: "int \<Rightarrow> error + nat" where
  "file_seek off = (if off < 0 \<or> 2 ^ 63 \<le> off then Inl OSError else Inr (nat off))"

text \<open>\<open>binascii.hexlify(b).decode('ascii')\<close> and \<open>str.upper\<close> on its result.\<close>

definition hex_lower :: "nat \<Rightarrow> char" where
  "hex_lower d = ''0123456789abcdef'' ! d"

definition hex_upper :: "nat \<Rightarrow> char" where
  "hex_upper d = ''0123456789ABCDEF'' ! d"

definition hexlify :: "byte list \<Rightarrow> string" where
  "hexlify bs = concat (map (\<lambda>b. [hex_lower (unat b div 16), hex_lower (unat b mod 16)]) bs)"

definition upper_char :: "char \<Rightarrow> char" where
  "upper_char c =
     (if c = CHR ''a'' then CHR ''A'' else if c = CHR ''b'' then CHR ''B''
      else if c = CHR ''c'' then CHR ''C'' else if c = CHR ''d'' then CHR ''D''
      else if c = CHR ''e'' then CHR ''E'' else if c = CHR ''f'' then CHR ''F'' else c)"

definition upper :: "string \<Rightarrow> string" where
  "upper s = map upper_char s"

section \<open>SizeFormatter: \_bytes\_to\_human\<close>

text \<open>
  \<open>bytes_size\<close> starts as a Python int and becomes a C double at the first
  \<open>bytes_size /= 1024.0\<close>; the format \<open>.2f\<close> converts an int to a double as well. So
  the int is converted once, whichever branch is taken first: \<open>float_of_int\<close> is the
  correctly rounded conversion (53 significant bits, ties to even), which raises
  OverflowError when the rounded magnitude reaches \<open>2 ^ 1024\<close>. The result is an integer.
  The comparison of an int with \<open>1024.0\<close> is exact in Python, and agrees with the
  comparison of the converted value, because the conversion is monotone and fixes every
  integer below \<open>2 ^ 53\<close>.

  Dividing a double by \<open>1024.0\<close> only lowers its exponent: it is exact, as the value
  divided is at least 1024 and cannot underflow. After \<open>k\<close> divisions the double is
  exactly \<open>v / 1024 ^ k\<close>; the model keeps it as the numerator \<open>v\<close> and the denominator
  \<open>d = 1024 ^ k\<close>. The format \<open>.2f\<close> prints the decimal expansion of the exact value,
  rounded to two places, ties to even.
\<close>

fun bit_length :: "nat \<Rightarrow> nat" where
  "bit_length n = (if n = 0 then 0 else Suc (bit_length (n div 2)))"

declare bit_length.simps [simp del]

definition round_half_even_div :: "nat \<Rightarrow> nat \<Rightarrow> nat" where
  "round_half_even_div a d =
     (let q = a div d; r = a mod d
      in if 2 * r < d then q else if d < 2 * r then q + 1
         else if even q then q else q + 1)"

definition float_of_int :: "int \<Rightarrow> error + int" where
  "float_of_int n =
     (let m = nat \<bar>n\<bar>; b = bit_length m
      in if b \<le> 53 then Inr n
         else let v = round_half_even_div m (2 ^ (b - 53)) * 2 ^ (b - 53)
              in if 2 ^ 1024 \<le> v then Inl OverflowError else Inr (sgn n * int v))"

definition digit_char :: "nat \<Rightarrow> char" where
  "digit_char d = ''0123456789'' ! d"

fun str_nat :: "nat \<Rightarrow> string" where
  "str_nat n = (if n < 10 then [digit_char n] else str_nat (n div 10) @ [digit_char (n mod 10)])"

declare str_nat.simps [simp del]

text \<open>\<open>f"{x:.2f}"\<close> for the double \<open>x = v / d\<close>, \<open>0 < d\<close>.\<close>

definition format_2f :: "int \<Rightarrow> int \<Rightarrow> string" where
  "format_2f v d =
     (let c = round_half_even_div (nat \<bar>v\<bar> * 100) (nat d)
      in (if v < 0 then ''-'' else '''') @ str_nat (c div 100) @ ''.'' @
         [digit_char (c mod 100 div 10), digit_char (c mod 10)])"

text \<open>The \<open>for unit in [...]\<close> loop, and the \<open>PB\<close> return after it.\<close>

fun human_loop :: "int \<Rightarrow> int \<Rightarrow> string list \<Rightarrow> string" where
  "human_loop v d [] = format_2f v d @ '' PB''"
| "human_loop v d (unit # units) =
     (if v < 1024 * d then format_2f v d @ '' '' @ unit
      else human_loop v (d * 1024) units)"

definition bytes_to_human :: "int \<Rightarrow> error + string" where
  "bytes_to_human bytes_size =
     (case float_of_int bytes_size of
        Inl e \<Rightarrow> Inl e
      | Inr v \<Rightarrow> Inr (human_loop v 1 [''B'', ''KB'', ''MB'', ''GB'', ''TB'']))"

section \<open>PartitionTypeCatalog\<close>

text \<open>The Russian words of the MBR table, as code points.\<close>

definition ru_empty :: ustr where
  "ru_empty = [1055, 1091, 1089, 1090, 1086, 1081]"

definition ru_extended :: ustr where
  "ru_extended = [1056, 1072, 1089, 1096, 1080, 1088, 1077, 1085, 1085, 1099, 1081]"

definition ru_hidden :: ustr where
  "ru_hidden = [1057, 1082, 1088, 1099, 1090, 1099, 1081]"

definition ru_protective :: ustr where
  "ru_protective = [1079, 1072, 1097, 1080, 1090, 1085, 1099, 1081]"

definition ru_unknown :: ustr where
  "ru_unknown = [1053, 1077, 1080, 1079, 1074, 1077, 1089, 1090, 1085, 1099, 1081]"

definition partition_types :: "(int \<times> ustr) list" where
  "partition_types =
     [(0x00, ru_empty),
      (0x01, asc ''FAT12''),
      (0x04, asc ''FAT16 <32MB''),
      (0x05, ru_extended),
      (0x06, asc ''FAT16 >32MB''),
      (0x07, asc ''NTFS/HPFS/exFAT''),
      (0x0B, asc ''FAT32 (CHS)''),
      (0x0C, asc ''FAT32 (LBA)''),
      (0x0E, asc ''FAT16 (LBA)''),
      (0x0F, ru_extended @ asc '' (LBA)''),
      (0x11, ru_hidden @ asc '' FAT12''),
      (0x14, ru_hidden @ asc '' FAT16 <32MB''),
      (0x16, ru_hidden @ asc '' FAT16 >32MB''),
      (0x1B, ru_hidden @ asc '' FAT32 (CHS)''),
      (0x1C, ru_hidden @ asc '' FAT32 (LBA)''),
      (0x1E, ru_hidden @ asc '' FAT16 (LBA)''),
      (0x82, asc ''Linux Swap''),
      (0x83, asc ''Linux Native''),
      (0x85, asc ''Linux Extended''),
      (0x8E, asc ''Linux LVM''),
      (0xA5, asc ''FreeBSD''),
      (0xA6, asc ''OpenBSD''),
      (0xA8, asc ''macOS Darwin UFS''),
      (0xA9, asc ''NetBSD''),
      (0xAB, asc ''macOS Darwin Boot''),
      (0xAF, asc ''macOS Darwin HFS/HFS+''),
      (0xB7, asc ''BSDI''),
      (0xB8, asc ''BSDI Swap''),
      (0xEE, asc ''GPT '' @ ru_protective @ asc '' MBR''),
      (0xEF, asc ''EFI System Partition''),
      (0xFC, asc ''VMWare VMFS''),
      (0xFD, asc ''Linux RAID'')]"

fun str_hex_upper :: "nat \<Rightarrow> string" where
  "str_hex_upper n =
     (if n < 16 then [hex_upper n] else str_hex_upper (n div 16) @ [hex_upper (n mod 16)])"

declare str_hex_upper.simps [simp del]

text \<open>\<open>f"{n:02X}"\<close>: the sign counts towards the width 2.\<close>

definition format_02X :: "int \<Rightarrow> string" where
  "format_02X n =
     (if n < 0 then ''-'' @ str_hex_upper (nat (- n))
      else if n < 16 then ''0'' @ str_hex_upper (nat n)
      else str_hex_upper (nat n))"

definition get_partition_description :: "int \<Rightarrow> ustr" where
  "get_partition_description tc =
     (case map_of partition_types tc of
        Some d \<Rightarrow> d
      | None \<Rightarrow> ru_unknown @ asc '' (0x'' @ asc (format_02X tc) @ asc '')'')"

definition gpt_types :: "(string \<times> string) list" where
  "gpt_types =
     [(''C12A7328F81F11D2BA4B00A0C93EC93B'', ''EFI System Partition''),
      (''E3C9E3160B5C4DB8817DF92DF00215AE'', ''Microsoft Reserved''),
      (''EBD0A0A2B9E5443387C068B6B72699C7'', ''Microsoft Basic Data''),
      (''5808C8AA7E8F42E085FE4F984F2F9F50'', ''Linux LVM''),
      (''0FC63DAF848347728E793D69D8477DE4'', ''Linux Filesystem''),
      (''0657FD6DA4AB43C484E50933C84B4F4F'', ''Linux Swap''),
      (''8DA63339000011C2950003FF48464D45'', ''Linux Reserved''),
      (''83BD6B9D7F418719B69478DDA015F979'', ''Apple APFS''),
      (''48465300000011AAAA1100306543ECAC'', ''Apple HFS+''),
      (''7C3457EF000011AA8AA3005195CAF3CA'', ''Apple APFS Container'')]"

definition get_gpt_partition_type :: "byte list \<Rightarrow> ustr" where
  "get_gpt_partition_type guid_bytes =
     (let guid_str = upper (hexlify guid_bytes)
      in case map_of gpt_types guid_str of
           Some d \<Rightarrow> asc d
         | None \<Rightarrow> asc (''Unknown GUID ('' @ take 8 guid_str @ ''...)''))"

section \<open>TableTypeDetector: \_detect\_partition\_type\<close>

text \<open>
  \<open>sector[510] == 0x55 and sector[511] == 0xAA\<close>: an index past the end of the buffer
  raises IndexError, and \<open>sector[511]\<close> is read only when the first test succeeds.
\<close>

definition has_boot_signature :: "byte list \<Rightarrow> error + bool" where
  "has_boot_signature sector =
     (if length sector \<le> 510 then Inl IndexError
      else if sector ! 510 = 0x55
           then (if length sector \<le> 511 then Inl IndexError else Inr (sector ! 511 = 0xAA))
           else Inr False)"

definition EFI_PART :: "byte list" where
  "EFI_PART = [0x45, 0x46, 0x49, 0x20, 0x50, 0x41, 0x52, 0x54]"

text \<open>
  In the first branch \<open>sector[450]\<close> is in range, because \<open>sector[511]\<close> was. The
  signature test of the second branch slices the same buffer \<open>sector\<close>.
\<close>

definition detect_partition_type :: "DiskAnalyzer \<Rightarrow> byte list \<Rightarrow> error + DiskAnalyzer" where
  "detect_partition_type self sector =
     (case has_boot_signature sector of
        Inl e \<Rightarrow> Inl e
      | Inr True \<Rightarrow>
          (let self1 = self\<lparr>boot_signature := ''55 AA''\<rparr>;
               partition_type' = sector ! 450
           in if partition_type' = 0xEE then Inr (self1\<lparr>partition_type := GPT\<rparr>)
              else Inr (self1\<lparr>partition_type := MBR\<rparr>))
      | Inr False \<Rightarrow>
          (let gpt_signature = slice 0x200 0x208 sector
           in if gpt_signature = EFI_PART then Inr (self\<lparr>partition_type := GPT\<rparr>)
              else Inr self))"

section \<open>MbrDecoder: \_analyze\_mbr\<close>

text \<open>
  The decoders return the updated analyzer and the exception that ended them, if any:
  entries appended before an exception stay in \<open>self.partitions\<close>. The only exception
  a decoder can raise after its reads is the OverflowError of \<open>_bytes_to_human\<close>.
\<close>

fun mbr_loop :: "byte list \<Rightarrow> nat list \<Rightarrow> DiskAnalyzer \<Rightarrow> DiskAnalyzer \<times> error option" where
  "mbr_loop sector [] self = (self, None)"
| "mbr_loop sector (i # rest) self =
     (let offset = 446 + i * 16;
          partition_data = slice offset (offset + 16) sector
      in if length partition_data < 16 then mbr_loop sector rest self
         else
           let status = partition_data ! 0;
               type_code' = uint (partition_data ! 4);
               lba_start = unpack_le (slice 8 12 partition_data);
               num_sectors = unpack_le (slice 12 16 partition_data)
           in if type_code' = 0x00 \<and> lba_start = 0 then mbr_loop sector rest self
              else
                let is_active = (status = 0x80);
                    type_str = get_partition_description type_code';
                    size_bytes' = num_sectors * sector_size self
                in case bytes_to_human size_bytes' of
                     Inl e \<Rightarrow> (self, Some e)
                   | Inr size_human' \<Rightarrow>
                       mbr_loop sector rest
                         (self\<lparr>partitions := partitions self @
                            [\<lparr>number = int i + 1,
                              type = type_str,
                              type_code = type_code',
                              start_sector = lba_start,
                              size_sectors = num_sectors,
                              end_sector = lba_start + num_sectors - 1,
                              size_bytes = size_bytes',
                              size_human = size_human',
                              guid = '''',
                              name = [],
                              attributes = 0,
                              is_active = is_active\<rparr>]\<rparr>))"

definition analyze_mbr :: "DiskAnalyzer \<Rightarrow> byte list \<Rightarrow> DiskAnalyzer \<times> error option" where
  "analyze_mbr self sector = mbr_loop sector [0, 1, 2, 3] self"

section \<open>GptDecoder: \_analyze\_gpt\<close>

text \<open>
  \<open>bytes.decode('utf-16le', errors='ignore')\<close>: two bytes make a code unit; a high
  surrogate followed by a low one makes one code point; a low surrogate alone, or a high
  one followed by something else, is dropped (two bytes) and decoding resumes after it; a
  high surrogate at the end of the data, and an odd last byte, are dropped.
\<close>

fun utf16le_ignore :: "byte list \<Rightarrow> ustr" where
  "utf16le_ignore (lo # hi # rest) =
     (let u = unat lo + 256 * unat hi
      in if u < 0xD800 \<or> 0xDFFF < u then u # utf16le_ignore rest
         else if 0xDC00 \<le> u then utf16le_ignore rest
         else (case rest of
                 lo2 # hi2 # rest2 \<Rightarrow>
                   (let u2 = unat lo2 + 256 * unat hi2
                    in if 0xDC00 \<le> u2 \<and> u2 \<le> 0xDFFF
                       then (0x10000 + (u - 0xD800) * 1024 + (u2 - 0xDC00)) # utf16le_ignore rest2
                       else utf16le_ignore rest)
               | _ \<Rightarrow> []))"
| "utf16le_ignore _ = []"

text \<open>\<open>str.strip('\x00')\<close> removes the NUL characters at both ends.\<close>

definition strip_nul :: "ustr \<Rightarrow> ustr" where
  "strip_nul s = rev (dropWhile (\<lambda>c. c = 0) (rev (dropWhile (\<lambda>c. c = 0) s)))"

text \<open>
  The loop \<open>for i in range(num_partition_entries)\<close>: \<open>k\<close> iterations remain, the file
  is at \<open>pos\<close>, and \<open>partition_num\<close> is the local counter.
\<close>

fun gpt_loop ::
  "byte list \<Rightarrow> int \<Rightarrow> nat \<Rightarrow> nat \<Rightarrow> int \<Rightarrow> DiskAnalyzer \<Rightarrow> DiskAnalyzer \<times> error option" where
  "gpt_loop img partition_entry_size 0 pos partition_num self = (self, None)"
| "gpt_loop img partition_entry_size (Suc k) pos partition_num self =
     (case file_read img pos partition_entry_size of
        Inl e \<Rightarrow> (self, Some e)
      | Inr (entry_data, pos') \<Rightarrow>
          if length entry_data < 128 then (self, None)
          else
            let partition_type_guid = slice 0 16 entry_data
            in if list_all (\<lambda>b. b = 0) partition_type_guid
               then gpt_loop img partition_entry_size k pos' partition_num self
               else
                 let partition_guid = slice 16 32 entry_data;
                     first_lba = unpack_le (slice 32 40 entry_data);
                     last_lba = unpack_le (slice 40 48 entry_data);
                     attributes' = unpack_le (slice 48 56 entry_data);
                     partition_name = strip_nul (utf16le_ignore (slice 56 128 entry_data))
                 in if first_lba = 0
                    then gpt_loop img partition_entry_size k pos' partition_num self
                    else
                      let type_str = get_gpt_partition_type partition_type_guid;
                          num_sectors = last_lba - first_lba + 1;
                          size_bytes' = num_sectors * sector_size self
                      in case bytes_to_human size_bytes' of
                           Inl e \<Rightarrow> (self, Some e)
                         | Inr size_human' \<Rightarrow>
                             gpt_loop img partition_entry_size k pos' (partition_num + 1)
                               (self\<lparr>partitions := partitions self @
                                  [\<lparr>number = partition_num,
                                    type = type_str,
                                    type_code = 0,
                                    start_sector = first_lba,
                                    size_sectors = num_sectors,
                                    end_sector = last_lba,
                                    size_bytes = size_bytes',
                                    size_human = size_human',
                                    guid = hexlify partition_guid,
                                    name = partition_name,
                                    attributes = attributes',
                                    is_active = False\<rparr>]\<rparr>))"

text \<open>
  \<open>_analyze_gpt\<close> ignores its argument \<open>sector\<close> and reads the file \<open>f\<close>. A header
  shorter than 92 bytes prints a message and returns normally.
\<close>

definition analyze_gpt :: "DiskAnalyzer \<Rightarrow> byte list \<Rightarrow> DiskAnalyzer \<times> error option" where
  "analyze_gpt self img =
     (case file_seek (sector_size self) of
        Inl e \<Rightarrow> (self, Some e)
      | Inr pos \<Rightarrow>
          (case file_read img pos (sector_size self) of
             Inl e \<Rightarrow> (self, Some e)
           | Inr (gpt_header, pos') \<Rightarrow>
               if length gpt_header < 92 then (self, None)
               else
                 let partition_entries_lba = unpack_le (slice 72 80 gpt_header);
                     num_partition_entries = unpack_le (slice 80 84 gpt_header);
                     partition_entry_size = unpack_le (slice 84 88 gpt_header);
                     partition_table_offset = partition_entries_lba * sector_size self
                 in case file_seek partition_table_offset of
                      Inl e \<Rightarrow> (self, Some e)
                    | Inr pos2 \<Rightarrow>
                        gpt_loop img partition_entry_size (nat num_partition_entries)
                          pos2 1 self))"

section \<open>The decode operation: analyze\<close>

text \<open>
  \<open>analyze\<close> returns its boolean and the analyzer as the call leaves it. A missing file
  and every exception raised inside the \<open>try\<close> end in \<open>return False\<close>; the assignments
  made before the exception stay. The model is of the script as it is run
  (\<open>import os\<close> happens under the \<open>__main__\<close> guard). The hex dump and
  \<open>_find_first_sectors\<close> only print, catch their own read errors and change no field, so
  they are not modelled.
\<close>

definition analyze :: "DiskAnalyzer \<Rightarrow> byte list option \<Rightarrow> bool \<times> DiskAnalyzer" where
  "analyze self file =
     (case file of
        None \<Rightarrow> (False, self)
      | Some img \<Rightarrow>
          (let self1 = self\<lparr>disk_size := int (length img)\<rparr>
           in case file_read img 0 (sector_size self1) of
                Inl e \<Rightarrow> (False, self1)
              | Inr (sector0, pos) \<Rightarrow>
                  if int (length sector0) < sector_size self1 then (False, self1)
                  else
                    (case detect_partition_type self1 sector0 of
                       Inl e \<Rightarrow> (False, self1)
                     | Inr self2 \<Rightarrow>
                         if partition_type self2 = MBR
                         then (case analyze_mbr self2 sector0 of
                                 (self3, None) \<Rightarrow> (True, self3)
                               | (self3, Some e) \<Rightarrow> (False, self3))
                         else if partition_type self2 = GPT
                         then (case analyze_gpt self2 img of
                                 (self3, None) \<Rightarrow> (True, self3)
                               | (self3, Some e) \<Rightarrow> (False, self3))
                         else (False, self2))))"

text \<open>The operation \<open>decode(source, sector_size)\<close>: a new analyzer, analysed once.\<close>

definition decode :: "byte list option \<Rightarrow> int \<Rightarrow> bool \<times> DiskAnalyzer" where
  "decode file ss = analyze (init ss) file"

section \<open>Notions used in the statements\<close>


text \<open>Slot \<open>i\<close> of the MBR table, as \<open>_analyze_mbr\<close> slices it, and the test that makes
  the loop skip it as empty.\<close>

definition mbr_slot :: "byte list \<Rightarrow> nat \<Rightarrow> byte list" where
  "mbr_slot sector i = slice (446 + i * 16) (446 + i * 16 + 16) sector"

definition mbr_slot_empty :: "byte list \<Rightarrow> nat \<Rightarrow> bool" where
  "mbr_slot_empty sector i \<longleftrightarrow>
     uint (mbr_slot sector i ! 4) = 0 \<and> unpack_le (slice 8 12 (mbr_slot sector i)) = 0"

text \<open>A sector whose table is \<open>[empty, X, empty, Y]\<close>: X an active Linux partition at
  LBA 2048, Y a swap partition behind it.\<close>

definition slots_eXeY :: "byte list" where
  "slots_eXeY =
     replicate 446 0 @
     replicate 16 0 @
     [0x80, 0, 0, 0, 0x83, 0, 0, 0, 0x00, 0x08, 0x00, 0x00, 0x00, 0x20, 0x03, 0x00] @
     replicate 16 0 @
     [0x00, 0, 0, 0, 0x82, 0, 0, 0, 0x00, 0x28, 0x03, 0x00, 0x00, 0x10, 0x00, 0x00] @
     [0x55, 0xAA]"

text \<open>Record \<open>i\<close> of a GPT entry array that starts at byte \<open>table_offset\<close> and whose
  records are \<open>entry_size\<close> bytes apart: what is left of it in the image.\<close>

definition gpt_record :: "byte list \<Rightarrow> nat \<Rightarrow> nat \<Rightarrow> nat \<Rightarrow> byte list" where
  "gpt_record img table_offset entry_size i =
     take entry_size (drop (table_offset + i * entry_size) img)"

text \<open>The name of an entry as the source decodes it, and as the specification words it
  (the field runs to the end of the record, only trailing NULs are trimmed).\<close>

definition name_in_code :: "byte list \<Rightarrow> ustr" where
  "name_in_code entry_data = strip_nul (utf16le_ignore (slice 56 128 entry_data))"

definition name_in_spec :: "nat \<Rightarrow> byte list \<Rightarrow> ustr" where
  "name_in_spec entry_size entry_data =
     rev (dropWhile (\<lambda>c. c = 0) (rev (utf16le_ignore (slice 56 entry_size entry_data))))"

text \<open>What one record contributes: nothing when its type GUID is all zero or its
  \<open>first_lba\<close> is 0, else the entry numbered \<open>partition_num\<close>, named by \<open>name_of\<close>.\<close>

definition gpt_entry ::
  "int \<Rightarrow> (byte list \<Rightarrow> ustr) \<Rightarrow> int \<Rightarrow> byte list \<Rightarrow> error + PartitionEntry option" where
  "gpt_entry ss name_of partition_num entry_data =
     (if list_all (\<lambda>b. b = 0) (slice 0 16 entry_data) \<or> unpack_le (slice 32 40 entry_data) = 0
      then Inr None
      else
        let first_lba = unpack_le (slice 32 40 entry_data);
            last_lba = unpack_le (slice 40 48 entry_data)
        in case bytes_to_human ((last_lba - first_lba + 1) * ss) of
             Inl e \<Rightarrow> Inl e
           | Inr h \<Rightarrow>
               Inr (Some \<lparr>number = partition_num,
                          type = get_gpt_partition_type (slice 0 16 entry_data),
                          type_code = 0,
                          start_sector = first_lba,
                          size_sectors = last_lba - first_lba + 1,
                          end_sector = last_lba,
                          size_bytes = (last_lba - first_lba + 1) * ss,
                          size_human = h,
                          guid = hexlify (slice 16 32 entry_data),
                          name = name_of entry_data,
                          attributes = unpack_le (slice 48 56 entry_data),
                          is_active = False\<rparr>))"

text \<open>The entries of a list of records, numbered from \<open>partition_num\<close> over the emitted
  ones, up to the first exception.\<close>

fun gpt_emit ::
  "int \<Rightarrow> (byte list \<Rightarrow> ustr) \<Rightarrow> int \<Rightarrow> byte list list \<Rightarrow> PartitionEntry list \<times> error option" where
  "gpt_emit ss name_of partition_num [] = ([], None)"
| "gpt_emit ss name_of partition_num (d # ds) =
     (case gpt_entry ss name_of partition_num d of
        Inl e \<Rightarrow> ([], Some e)
      | Inr None \<Rightarrow> gpt_emit ss name_of partition_num ds
      | Inr (Some p) \<Rightarrow>
          (case gpt_emit ss name_of (partition_num + 1) ds of (ps, r) \<Rightarrow> (p # ps, r)))"

text \<open>The entry array decoded: the records \<open>0..n-1\<close> up to the first one shorter than
  \<open>limit\<close> bytes. Lemma \<open>gpt_loop_emit\<close> proves that the loop of the source computes
  this with the limit 128 and the name of the source.\<close>

definition gpt_array ::
  "nat \<Rightarrow> (byte list \<Rightarrow> ustr) \<Rightarrow> byte list \<Rightarrow> int \<Rightarrow> nat \<Rightarrow> nat \<Rightarrow> nat
     \<Rightarrow> PartitionEntry list \<times> error option" where
  "gpt_array limit name_of img ss table_offset entry_size n =
     gpt_emit ss name_of 1
       (takeWhile (\<lambda>d. limit \<le> length d) (map (gpt_record img table_offset entry_size) [0..<n]))"

text \<open>The GPT header as \<open>_analyze_gpt\<close> reads it: up to \<open>sector_size\<close> bytes at byte
  offset \<open>sector_size\<close>.\<close>

definition gpt_header :: "byte list \<Rightarrow> int \<Rightarrow> byte list" where
  "gpt_header img ss = take (nat ss) (drop (nat ss) img)"

text \<open>An image with 512-byte sectors whose GPT header declares one entry of 256 bytes at
  LBA 2. The entry has a non-zero type GUID, \<open>first_lba = 34\<close>, \<open>last_lba = 100\<close>, the
  letter A at offset 56 and the letter B at offset 128.\<close>

definition gpt_img_256 :: "byte list" where
  "gpt_img_256 =
     replicate 512 0 @
     (replicate 72 0 @ [2, 0, 0, 0, 0, 0, 0, 0] @ [1, 0, 0, 0] @ [0, 1, 0, 0] @ replicate 424 0) @
     ([1, 0, 0, 0, 0, 0, 0, 0, 0, 0, 0, 0, 0, 0, 0, 0] @
      [0xAB, 0xCD, 0, 0, 0, 0, 0, 0, 0, 0, 0, 0, 0, 0, 0, 0] @
      [34, 0, 0, 0, 0, 0, 0, 0] @ [100, 0, 0, 0, 0, 0, 0, 0] @ replicate 8 0 @
      [65, 0] @ replicate 70 0 @ [66, 0] @ replicate 126 0)"

text \<open>An entry that is well-formed with respect to its origin in the MBR: its end sector is
  computed from start and count, and it is the entry of a complete, non-empty slot.\<close>

definition mbr_entry_ok :: "byte list \<Rightarrow> PartitionEntry \<Rightarrow> bool" where
  "mbr_entry_ok sector e \<longleftrightarrow>
     end_sector e = start_sector e + size_sectors e - 1 \<and>
     (\<exists>i\<in>{0, 1, 2, 3}.
        length (mbr_slot sector i) = 16 \<and> \<not> mbr_slot_empty sector i \<and>
        number e = int i + 1 \<and>
        type_code e = uint (mbr_slot sector i ! 4) \<and>
        start_sector e = unpack_le (slice 8 12 (mbr_slot sector i)) \<and>
        size_sectors e = unpack_le (slice 12 16 (mbr_slot sector i)))"

text \<open>The same for an entry of the GPT array: it is the entry of a record of at least 128
  bytes whose type GUID is not all zero and whose \<open>first_lba\<close> is not 0.\<close>

definition gpt_record_entry :: "byte list \<Rightarrow> PartitionEntry \<Rightarrow> bool" where
  "gpt_record_entry d e \<longleftrightarrow>
     128 \<le> length d \<and>
     \<not> list_all (\<lambda>b. b = 0) (slice 0 16 d) \<and>
     start_sector e \<noteq> 0 \<and>
     start_sector e = unpack_le (slice 32 40 d) \<and>
     end_sector e = unpack_le (slice 40 48 d) \<and>
     size_sectors e = end_sector e - start_sector e + 1"

definition gpt_entry_ok :: "byte list \<Rightarrow> int \<Rightarrow> PartitionEntry \<Rightarrow> bool" where
  "gpt_entry_ok img ss e \<longleftrightarrow>
     (let hdr = gpt_header img ss;
          table_offset = nat (unpack_le (slice 72 80 hdr) * ss);
          num_partition_entries = nat (unpack_le (slice 80 84 hdr));
          partition_entry_size = nat (unpack_le (slice 84 88 hdr))
      in \<exists>i\<in>{0..<num_partition_entries}.
           gpt_record_entry (gpt_record img table_offset partition_entry_size i) e)"

text \<open>A sector whose first slot has type \<open>0x83\<close>, \<open>lba_start = 2048\<close> and a sector
  count of 0.\<close>

definition slot_zero_count :: "byte list" where
  "slot_zero_count =
     replicate 446 0 @
     [0x00, 0, 0, 0, 0x83, 0, 0, 0, 0x00, 0x08, 0x00, 0x00, 0x00, 0x00, 0x00, 0x00] @
     replicate 48 0 @ [0x55, 0xAA]"

text \<open>A one-sector image with the boot signature whose first slot is the active Linux
  partition of 204800 sectors at LBA 2048.\<close>

definition mbr_linux_image :: "byte list" where
  "mbr_linux_image =
     replicate 446 0 @
     [0x80, 0, 0, 0, 0x83, 0, 0, 0, 0x00, 0x08, 0x00, 0x00, 0x00, 0x20, 0x03, 0x00] @
     replicate 48 0 @ [0x55, 0xAA]"

text \<open>An image of two 512-byte sectors: sector 0 is zero (no boot signature) and
  sector 1 starts with \<open>EFI PART\<close>.\<close>

definition efi_part_image :: "byte list" where
  "efi_part_image = replicate 512 0 @ EFI_PART @ replicate 504 0"

text \<open>An image with a protective MBR in sector 0, followed by 50 bytes only.\<close>

definition short_header_image :: "byte list" where
  "short_header_image =
     replicate 450 0 @ [0xEE] @ replicate 59 0 @ [0x55, 0xAA] @ replicate 50 0"

text \<open>Two analyzers agree on what \<open>analyze\<close> can read before it writes: the sector size,
  and the two fields it reads back later, the table type and the partition list.\<close>

definition same_table :: "DiskAnalyzer \<Rightarrow> DiskAnalyzer \<Rightarrow> bool" where
  "same_table a b \<longleftrightarrow>
     sector_size a = sector_size b \<and> partition_type a = partition_type b \<and>
     partitions a = partitions b"

section \<open>Evaluation lemmas\<close>

lemma bit_length_le: "bit_length m \<le> k \<longleftrightarrow> m < 2 ^ k"
proof (induction m arbitrary: k rule: bit_length.induct)
  case (1 n)
  show ?case
  proof (cases "n = 0")
    case True
    then show ?thesis by (simp add: bit_length.simps)
  next
    case False
    show ?thesis
    proof (cases k)
      case 0
      with False show ?thesis by (simp add: bit_length.simps)
    next
      case (Suc j)
      have "bit_length n \<le> Suc j \<longleftrightarrow> bit_length (n div 2) \<le> j"
        using False by (subst bit_length.simps) simp
      also have "\<dots> \<longleftrightarrow> n div 2 < 2 ^ j" using 1 False by simp
      also have "\<dots> \<longleftrightarrow> n < 2 ^ Suc j"
        by (simp add: div_less_iff_less_mult mult.commute)
      finally show ?thesis using Suc by simp
    qed
  qed
qed

lemma float_of_int_small: "\<bar>n\<bar> < 2 ^ 53 \<Longrightarrow> float_of_int n = Inr n"
  by (simp add: float_of_int_def Let_def bit_length_le nat_less_iff)

lemma float_of_int_defined:
  assumes "\<bar>n\<bar> < 2 ^ 1023"
  shows "\<exists>v. float_of_int n = Inr v"
proof (cases "bit_length (nat \<bar>n\<bar>) \<le> 53")
  case True
  then show ?thesis by (simp add: float_of_int_def Let_def)
next
  case False
  let ?m = "nat \<bar>n\<bar>"
  let ?sh = "bit_length ?m - 53"
  have m: "?m < 2 ^ 1023" using assms by (simp add: nat_less_iff)
  have "\<not> bit_length ?m \<le> bit_length ?m - 1" using False by simp
  then have "2 ^ (bit_length ?m - 1) \<le> ?m"
    unfolding bit_length_le by simp
  moreover have "(2::nat) ^ ?sh \<le> 2 ^ (bit_length ?m - 1)"
    by (intro power_increasing) simp_all
  ultimately have sh: "2 ^ ?sh \<le> ?m" by linarith
  have "round_half_even_div ?m (2 ^ ?sh) \<le> ?m div 2 ^ ?sh + 1"
    by (simp add: round_half_even_div_def Let_def)
  then have "round_half_even_div ?m (2 ^ ?sh) * 2 ^ ?sh \<le> (?m div 2 ^ ?sh + 1) * 2 ^ ?sh"
    by (intro mult_right_mono) simp_all
  also have "\<dots> = ?m div 2 ^ ?sh * 2 ^ ?sh + 2 ^ ?sh"
    by (simp add: algebra_simps)
  also have "\<dots> \<le> ?m + 2 ^ ?sh"
    by simp
  also have "\<dots> \<le> ?m + ?m" using sh by simp
  also have "\<dots> < 2 ^ 1024" using m by simp
  finally have "\<not> 2 ^ 1024 \<le> round_half_even_div ?m (2 ^ ?sh) * 2 ^ ?sh"
    by simp
  with False show ?thesis
    by (simp add: float_of_int_def Let_def)
qed

lemma bytes_to_human_defined: "\<bar>n\<bar> < 2 ^ 1023 \<Longrightarrow> \<exists>h. bytes_to_human n = Inr h"
  using float_of_int_defined [of n] by (auto simp: bytes_to_human_def)

lemma str_nat_small: "n < 10 \<Longrightarrow> str_nat n = [digit_char n]"
  by (simp add: str_nat.simps)

lemma str_nat_big: "10 \<le> n \<Longrightarrow> str_nat n = str_nat (n div 10) @ [digit_char (n mod 10)]"
  by (subst str_nat.simps) simp

lemma str_hex_small: "n < 16 \<Longrightarrow> str_hex_upper n = [hex_upper n]"
  by (simp add: str_hex_upper.simps)

lemma str_hex_big:
  "16 \<le> n \<Longrightarrow> str_hex_upper n = str_hex_upper (n div 16) @ [hex_upper (n mod 16)]"
  by (subst str_hex_upper.simps) simp

lemmas human_eval = bytes_to_human_def float_of_int_small format_2f_def
  round_half_even_div_def Let_def str_nat_small str_nat_big digit_char_def

lemma take_hexlify: "take (2 * n) (hexlify g) = hexlify (take n g)"
proof (induction g arbitrary: n)
  case Nil
  then show ?case by (simp add: hexlify_def)
next
  case (Cons b g)
  show ?case
  proof (cases n)
    case 0
    then show ?thesis by (simp add: hexlify_def)
  next
    case (Suc m)
    with Cons [of m] show ?thesis by (simp add: hexlify_def)
  qed
qed

section \<open>C10: the size formatter\<close>



section \<open>C9: unmatched catalog keys\<close>

text \<open>
  C9, as amended. Both catalog lookups are total functions (\<open>dict.get\<close> with a
  default). A type code that is not a key of the MBR table resolves to the Russian word
  for "unknown" followed by \<open>(0xNN)\<close>, where \<open>NN\<close> is the code in two upper-case
  hexadecimal digits when it is a byte. A type GUID whose upper-case hex dump is not a key
  of the GPT table resolves to \<open>Unknown GUID (XXXXXXXX...)\<close>, where \<open>XXXXXXXX\<close> is the
  hex dump of the first 4 bytes of the GUID.
\<close>

theorem catalog_unknown_labels:
  "(tc \<notin> set (map fst partition_types) \<longrightarrow>
      get_partition_description tc = ru_unknown @ asc '' (0x'' @ asc (format_02X tc) @ asc '')'') \<and>
   (0 \<le> tc \<and> tc < 256 \<longrightarrow>
      format_02X tc = [hex_upper (nat tc div 16), hex_upper (nat tc mod 16)]) \<and>
   (upper (hexlify g) \<notin> set (map fst gpt_types) \<longrightarrow>
      get_gpt_partition_type g =
        asc (''Unknown GUID ('' @ upper (hexlify (take 4 g)) @ ''...)''))"
proof (intro conjI impI)
  assume "tc \<notin> set (map fst partition_types)"
  then have "map_of partition_types tc = None"
    by (simp add: map_of_eq_None_iff)
  then show "get_partition_description tc =
      ru_unknown @ asc '' (0x'' @ asc (format_02X tc) @ asc '')''"
    by (simp add: get_partition_description_def)
next
  assume r: "0 \<le> tc \<and> tc < 256"
  show "format_02X tc = [hex_upper (nat tc div 16), hex_upper (nat tc mod 16)]"
  proof (cases "tc < 16")
    case True
    with r show ?thesis
      by (simp add: format_02X_def str_hex_small hex_upper_def)
  next
    case False
    with r have "16 \<le> nat tc" "nat tc div 16 < 16" by auto
    with r False show ?thesis
      by (simp add: format_02X_def str_hex_small str_hex_big)
  qed
next
  assume "upper (hexlify g) \<notin> set (map fst gpt_types)"
  then have "map_of gpt_types (upper (hexlify g)) = None"
    by (simp add: map_of_eq_None_iff)
  moreover have "take 8 (upper (hexlify g)) = upper (hexlify (take 4 g))"
    using take_hexlify [of 4 g] by (simp add: upper_def take_map)
  ultimately show "get_gpt_partition_type g =
      asc (''Unknown GUID ('' @ upper (hexlify (take 4 g)) @ ''...)'')"
    by (simp add: get_gpt_partition_type_def Let_def)
qed

theorem catalog_unknown_labels_witness:
  "(2::int) \<notin> set (map fst partition_types) \<and>
   get_partition_description 2 = ru_unknown @ asc '' (0x02)'' \<and>
   upper (hexlify [0x28, 0x73, 0x2A, 0xC1, 0x1F, 0xF8, 0xD2, 0x11,
                   0xBA, 0x4B, 0x00, 0xA0, 0xC9, 0x3E, 0xC9, 0x3B])
     \<notin> set (map fst gpt_types) \<and>
   get_gpt_partition_type [0x28, 0x73, 0x2A, 0xC1, 0x1F, 0xF8, 0xD2, 0x11,
                           0xBA, 0x4B, 0x00, 0xA0, 0xC9, 0x3E, 0xC9, 0x3B]
     = asc ''Unknown GUID (28732AC1...)''"
proof -
  let ?g = "[0x28, 0x73, 0x2A, 0xC1, 0x1F, 0xF8, 0xD2, 0x11,
             0xBA, 0x4B, 0x00, 0xA0, 0xC9, 0x3E, 0xC9, 0x3B] :: byte list"
  have a: "(2::int) \<notin> set (map fst partition_types)"
    by (simp add: partition_types_def)
  have b: "upper (hexlify ?g) \<notin> set (map fst gpt_types)"
    by (simp add: gpt_types_def hexlify_def hex_lower_def upper_def upper_char_def)
  have c: "(0::int) \<le> 2 \<and> (2::int) < 256" by simp
  note t = catalog_unknown_labels [of 2 ?g]
  have "get_partition_description 2 = ru_unknown @ asc '' (0x02)''"
    using t a c by (simp add: hex_upper_def asc_def)
  moreover have "get_gpt_partition_type ?g = asc ''Unknown GUID (28732AC1...)''"
    using t b by (simp add: hexlify_def hex_lower_def upper_def upper_char_def)
  ultimately show ?thesis using a b by simp
qed

text \<open>
  C9 as stated fails: the label of the unmatched code \<open>0x02\<close> is not the English
  \<open>Unknown (0x02)\<close>.
\<close>

theorem unknown_label_counterexample:
  "get_partition_description 0x02 \<noteq> asc ''Unknown (0x02)''"
  by (simp add: get_partition_description_def partition_types_def format_02X_def
      str_hex_small hex_upper_def asc_def ru_unknown_def)

section \<open>C3: a protective MBR\<close>

text \<open>
  C3, as amended. For every sector 0 whose bytes at offsets 510 and 511 are
  \<open>0x55 0xAA\<close> and whose byte at offset 450 is \<open>0xEE\<close>, detection records the boot
  signature \<open>55 AA\<close> and classifies the disk as \<open>GPT\<close>: \<open>PartitionType\<close> has the
  three values MBR, GPT and Unknown only, and the protective MBR gets the same value
  \<open>GPT\<close> as a disk found by its GPT signature, not MBR.
\<close>

theorem detect_protective_mbr:
  "512 \<le> length sector \<and> sector ! 510 = 0x55 \<and> sector ! 511 = 0xAA \<and> sector ! 450 = 0xEE \<longrightarrow>
   detect_partition_type self sector =
     Inr (self\<lparr>boot_signature := ''55 AA'', partition_type := GPT\<rparr>)"
  by (simp add: detect_partition_type_def has_boot_signature_def)

theorem detect_protective_mbr_witness:
  "detect_partition_type (init 512) (replicate 450 0 @ [0xEE] @ replicate 59 0 @ [0x55, 0xAA]) =
     Inr \<lparr>sector_size = 512, partition_type = GPT, partitions = [],
          boot_signature = ''55 AA'', disk_size = 0\<rparr>"
  using detect_protective_mbr
    [of "replicate 450 0 @ [0xEE] @ replicate 59 0 @ [0x55, 0xAA]" "init 512"]
  by (simp add: nth_append init_def)

text \<open>
  C3 as stated fails: on a sector with \<open>0xEE\<close> at offset 450 and the boot signature,
  the table type detected is plain \<open>GPT\<close>, not a value of its own.
\<close>

theorem protective_mbr_counterexample:
  "detect_partition_type (init 512) (replicate 450 0 @ [0xEE] @ replicate 59 0 @ [0x55, 0xAA]) =
     Inr ((init 512)\<lparr>boot_signature := ''55 AA'', partition_type := GPT\<rparr>)"
  by (simp add: detect_partition_type_def has_boot_signature_def nth_append)

section \<open>The MBR loop\<close>

lemma length_slice: "b \<le> length xs \<Longrightarrow> length (slice a b xs) = b - a"
  by (simp add: slice_def)

lemma unpack_le_zeros [simp]: "unpack_le (replicate n 0) = 0"
  by (induction n) simp_all

lemma mbr_loop_numbers:
  "\<forall>i\<in>set idxs. 446 + i * 16 + 16 \<le> length sector \<Longrightarrow>
   mbr_loop sector idxs self = (self', None) \<Longrightarrow>
   map number (partitions self') =
     map number (partitions self) @
     map (\<lambda>i. int i + 1) (filter (\<lambda>i. \<not> mbr_slot_empty sector i) idxs)"
proof (induction idxs arbitrary: self)
  case Nil
  then show ?case by simp
next
  case (Cons i rest)
  have len: "length (slice (446 + i * 16) (446 + i * 16 + 16) sector) = 16"
    using Cons.prems(1) by (simp add: length_slice)
  show ?case
  proof (cases "mbr_slot_empty sector i")
    case True
    with Cons len show ?thesis
      by (simp add: Let_def mbr_slot_empty_def mbr_slot_def)
  next
    case False
    with Cons.prems len obtain h where
      h: "bytes_to_human (unpack_le (slice 12 16 (mbr_slot sector i)) * sector_size self) = Inr h"
      by (auto simp: Let_def mbr_slot_empty_def mbr_slot_def split: sum.splits)
    with False Cons.prems len show ?thesis
      by (auto simp: Let_def mbr_slot_empty_def mbr_slot_def dest!: Cons.IH [rotated])
  qed
qed

section \<open>C1: numbering of MBR entries\<close>

text \<open>
  C1, as amended. For every 512-byte sector on which \<open>_analyze_mbr\<close> returns, the
  entries appended are those of the non-empty slots, in slot order, and each carries the
  number of its slot, \<open>i + 1\<close> for slot \<open>i\<close> of \<open>0..3\<close>: an empty slot
  (\<open>type_code == 0x00 and lba_start == 0\<close>) is skipped, but its number is not given to
  the next entry. A table with slots \<open>[empty, X, empty, Y]\<close> yields the number 2 for X and
  4 for Y.
\<close>

theorem mbr_numbering:
  "length sector = 512 \<and> analyze_mbr self sector = (self', None) \<longrightarrow>
   map number (partitions self') =
     map number (partitions self) @
     map (\<lambda>i. int i + 1) (filter (\<lambda>i. \<not> mbr_slot_empty sector i) [0, 1, 2, 3])"
proof
  assume a: "length sector = 512 \<and> analyze_mbr self sector = (self', None)"
  then have "\<forall>i\<in>set [0, 1, 2, 3]. 446 + i * 16 + 16 \<le> length sector" by simp
  with a show "map number (partitions self') =
     map number (partitions self) @
     map (\<lambda>i. int i + 1) (filter (\<lambda>i. \<not> mbr_slot_empty sector i) [0, 1, 2, 3])"
    unfolding analyze_mbr_def by (intro mbr_loop_numbers) auto
qed

lemmas mbr_eval = analyze_mbr_def Let_def slice_def init_def get_partition_description_def
  partition_types_def human_eval

text \<open>
  C1 as stated fails: on the table \<open>[empty, X, empty, Y]\<close> the numbers are 2 and 4, not
  1 and 2.
\<close>

theorem mbr_numbering_counterexample:
  "map number (partitions (fst (analyze_mbr (init 512) slots_eXeY))) = [2, 4]"
  by (simp add: slots_eXeY_def mbr_eval)

theorem mbr_numbering_witness:
  "length slots_eXeY = 512 \<and> snd (analyze_mbr (init 512) slots_eXeY) = None \<and>
   filter (\<lambda>i. \<not> mbr_slot_empty slots_eXeY i) [0, 1, 2, 3] = [1, 3] \<and>
   map number (partitions (fst (analyze_mbr (init 512) slots_eXeY))) = [2, 4]"
proof -
  have l: "length slots_eXeY = 512" by (simp add: slots_eXeY_def)
  have n: "snd (analyze_mbr (init 512) slots_eXeY) = None"
    by (simp add: slots_eXeY_def mbr_eval)
  have f: "filter (\<lambda>i. \<not> mbr_slot_empty slots_eXeY i) [0, 1, 2, 3] = [1, 3]"
    by (simp add: slots_eXeY_def mbr_slot_empty_def mbr_slot_def slice_def)
  from n have e: "analyze_mbr (init 512) slots_eXeY =
      (fst (analyze_mbr (init 512) slots_eXeY), None)"
    by (metis prod.collapse)
  have "map number (partitions (fst (analyze_mbr (init 512) slots_eXeY))) = [2, 4]"
    using mbr_numbering [of slots_eXeY "init 512" "fst (analyze_mbr (init 512) slots_eXeY)"] l e f
    by (simp add: init_def)
  with l n f show ?thesis by simp
qed

section \<open>C7: the MBR round trip\<close>

text \<open>
  C7. On a 512-byte sector whose first slot holds status \<open>0x80\<close>, type \<open>0x83\<close>,
  \<open>lba_start = 2048\<close> and 204800 sectors (whatever the boot code, the CHS bytes and the
  last two bytes are) and whose other three slots are zero, \<open>_analyze_mbr\<close> appends
  exactly one entry: number 1, active, type \<open>Linux Native\<close> (which contains
  \<open>Linux\<close>), end sector 206847 and \<open>size_bytes = 204800 * sector_size\<close>. The
  hypothesis on \<open>_bytes_to_human\<close> names the formatted size of the entry; by lemma
  \<open>bytes_to_human_defined\<close> there is one whenever the size in bytes is below
  \<open>2 ^ 1023\<close> in magnitude.
\<close>

theorem mbr_round_trip:
  "length boot = 446 \<and> length chs_start = 3 \<and> length chs_end = 3 \<and> length sig = 2 \<and>
   bytes_to_human (204800 * sector_size self) = Inr h \<longrightarrow>
   analyze_mbr self
     (boot @ [0x80] @ chs_start @ [0x83] @ chs_end @
      [0x00, 0x08, 0x00, 0x00, 0x00, 0x20, 0x03, 0x00] @ replicate 48 0 @ sig) =
     (self\<lparr>partitions := partitions self @
        [\<lparr>number = 1, type = asc ''Linux Native'', type_code = 0x83,
          start_sector = 2048, size_sectors = 204800, end_sector = 206847,
          size_bytes = 204800 * sector_size self, size_human = h,
          guid = '''', name = [], attributes = 0, is_active = True\<rparr>]\<rparr>, None) \<and>
   sublist (asc ''Linux'') (asc ''Linux Native'')"
proof
  assume a: "length boot = 446 \<and> length chs_start = 3 \<and> length chs_end = 3 \<and> length sig = 2 \<and>
   bytes_to_human (204800 * sector_size self) = Inr h"
  obtain c1 c2 c3 where s: "chs_start = [c1, c2, c3]"
    using a by (cases chs_start; cases "tl chs_start"; cases "tl (tl chs_start)") auto
  obtain d1 d2 d3 where e: "chs_end = [d1, d2, d3]"
    using a by (cases chs_end; cases "tl chs_end"; cases "tl (tl chs_end)") auto
  have "asc ''Linux Native'' = [] @ asc ''Linux'' @ asc '' Native''"
    by (simp add: asc_def)
  then have sub: "sublist (asc ''Linux'') (asc ''Linux Native'')"
    unfolding sublist_def by blast
  have "analyze_mbr self
     (boot @ [0x80] @ chs_start @ [0x83] @ chs_end @
      [0x00, 0x08, 0x00, 0x00, 0x00, 0x20, 0x03, 0x00] @ replicate 48 0 @ sig) =
     (self\<lparr>partitions := partitions self @
        [\<lparr>number = 1, type = asc ''Linux Native'', type_code = 0x83,
          start_sector = 2048, size_sectors = 204800, end_sector = 206847,
          size_bytes = 204800 * sector_size self, size_human = h,
          guid = '''', name = [], attributes = 0, is_active = True\<rparr>]\<rparr>, None)"
    using a unfolding s e
    by (simp add: analyze_mbr_def Let_def slice_def get_partition_description_def
        partition_types_def)
  with sub show "analyze_mbr self
     (boot @ [0x80] @ chs_start @ [0x83] @ chs_end @
      [0x00, 0x08, 0x00, 0x00, 0x00, 0x20, 0x03, 0x00] @ replicate 48 0 @ sig) =
     (self\<lparr>partitions := partitions self @
        [\<lparr>number = 1, type = asc ''Linux Native'', type_code = 0x83,
          start_sector = 2048, size_sectors = 204800, end_sector = 206847,
          size_bytes = 204800 * sector_size self, size_human = h,
          guid = '''', name = [], attributes = 0, is_active = True\<rparr>]\<rparr>, None) \<and>
   sublist (asc ''Linux'') (asc ''Linux Native'')" by simp
qed

theorem mbr_round_trip_witness:
  "bytes_to_human (204800 * sector_size (init 512)) = Inr ''100.00 MB'' \<and>
   analyze_mbr (init 512)
     (replicate 446 0 @ [0x80] @ [0, 0, 0] @ [0x83] @ [0, 0, 0] @
      [0x00, 0x08, 0x00, 0x00, 0x00, 0x20, 0x03, 0x00] @ replicate 48 0 @ [0x55, 0xAA]) =
     (\<lparr>sector_size = 512, partition_type = UNKNOWN,
       partitions =
        [\<lparr>number = 1, type = asc ''Linux Native'', type_code = 0x83,
          start_sector = 2048, size_sectors = 204800, end_sector = 206847,
          size_bytes = 104857600, size_human = ''100.00 MB'',
          guid = '''', name = [], attributes = 0, is_active = True\<rparr>],
       boot_signature = '''', disk_size = 0\<rparr>, None)"
proof -
  have h: "bytes_to_human (204800 * sector_size (init 512)) = Inr ''100.00 MB''"
    by (simp add: init_def human_eval)
  show ?thesis
    using h mbr_round_trip [of "replicate 446 0" "[0, 0, 0]" "[0, 0, 0]" "[0x55, 0xAA]"
        "init 512" "''100.00 MB''"]
    by (simp add: init_def)
qed

section \<open>The GPT loop\<close>

lemma gpt_record_Suc:
  "gpt_record img pos e (Suc i) = gpt_record img (pos + e) e i"
  by (simp add: gpt_record_def ac_simps)

lemma gpt_record_0: "gpt_record img pos e 0 = take e (drop pos img)"
  by (simp add: gpt_record_def)

lemma gpt_records_Suc:
  "map (gpt_record img pos e) [0..<Suc n] =
     take e (drop pos img) # map (gpt_record img (pos + e) e) [0..<n]"
proof -
  have "[0..<Suc n] = 0 # map Suc [0..<n]"
    by (simp add: upt_conv_Cons map_Suc_upt del: upt_Suc)
  then show ?thesis
    by (simp add: gpt_record_Suc gpt_record_0 comp_def del: upt_Suc)
qed

lemma gpt_records_past_end:
  "length img \<le> pos \<Longrightarrow>
   takeWhile (\<lambda>d. 128 \<le> length d) (map (gpt_record img pos e) [0..<n]) = []"
  by (cases n) (simp_all add: gpt_records_Suc del: upt_Suc)

lemma gpt_records_after_read:
  "takeWhile (\<lambda>d. 128 \<le> length d)
     (map (gpt_record img (pos + length (take e (drop pos img))) e) [0..<n]) =
   takeWhile (\<lambda>d. 128 \<le> length d) (map (gpt_record img (pos + e) e) [0..<n])"
proof (cases "pos + e \<le> length img")
  case True
  then show ?thesis by simp
next
  case False
  then have "length img \<le> pos + length (take e (drop pos img))" "length img \<le> pos + e"
    by auto
  then show ?thesis by (simp only: gpt_records_past_end)
qed

lemma gpt_loop_Suc:
  "0 \<le> esz \<Longrightarrow> esz < 2 ^ 63 \<Longrightarrow>
   gpt_loop img esz (Suc k) pos pn self =
     (let d = take (nat esz) (drop pos img); pos' = pos + length d
      in if length d < 128 then (self, None)
         else case gpt_entry (sector_size self) name_in_code pn d of
                Inl e \<Rightarrow> (self, Some e)
              | Inr None \<Rightarrow> gpt_loop img esz k pos' pn self
              | Inr (Some p) \<Rightarrow>
                  gpt_loop img esz k pos' (pn + 1)
                    (self\<lparr>partitions := partitions self @ [p]\<rparr>))"
  by (simp add: file_read_def gpt_entry_def Let_def name_in_code_def split: sum.splits)

lemma gpt_loop_emit:
  "0 \<le> esz \<Longrightarrow> esz < 2 ^ 63 \<Longrightarrow>
   gpt_loop img esz n pos pn self =
     (case gpt_emit (sector_size self) name_in_code pn
             (takeWhile (\<lambda>d. 128 \<le> length d) (map (gpt_record img pos (nat esz)) [0..<n])) of
        (ps, r) \<Rightarrow> (self\<lparr>partitions := partitions self @ ps\<rparr>, r))"
proof (induction n arbitrary: pos pn self)
  case 0
  then show ?case by simp
next
  case (Suc n)
  let ?d = "take (nat esz) (drop pos img)"
  let ?rest = "takeWhile (\<lambda>d. 128 \<le> length d)
      (map (gpt_record img (pos + nat esz) (nat esz)) [0..<n])"
  note step = gpt_loop_Suc [OF Suc.prems, of img n pos pn self]
  show ?case
  proof (cases "length ?d < 128")
    case True
    then have "takeWhile (\<lambda>d. 128 \<le> length d)
        (map (gpt_record img pos (nat esz)) [0..<Suc n]) = []"
      unfolding gpt_records_Suc by (simp only: takeWhile.simps) auto
    with True show ?thesis
      unfolding step Let_def by simp
  next
    case False
    have IH: "gpt_loop img esz n (pos + length ?d) q t =
        (case gpt_emit (sector_size t) name_in_code q ?rest of
           (ps, r) \<Rightarrow> (t\<lparr>partitions := partitions t @ ps\<rparr>, r))" for q t
      using Suc.IH [OF Suc.prems, of "pos + length ?d" q t]
      by (simp only: gpt_records_after_read)
    note IH' = IH [unfolded length_take length_drop]
    have recs: "takeWhile (\<lambda>d. 128 \<le> length d)
        (map (gpt_record img pos (nat esz)) [0..<Suc n]) = ?d # ?rest"
      unfolding gpt_records_Suc using False by (simp only: takeWhile.simps) auto
    show ?thesis
    proof (cases "gpt_entry (sector_size self) name_in_code pn ?d")
      case (Inl e)
      with False show ?thesis
        unfolding recs step Let_def by simp
    next
      case (Inr res)
      show ?thesis
      proof (cases res)
        case None
        with Inr False show ?thesis
          unfolding recs step Let_def by (simp add: IH')
      next
        case (Some p)
        with Inr False show ?thesis
          unfolding recs step Let_def by (simp add: IH' split: prod.splits)
      qed
    qed
  qed
qed

section \<open>The GPT decoder on an image\<close>

lemma unpack_le_nonneg: "0 \<le> unpack_le bs"
  by (induction bs) simp_all

lemma unpack_le_less: "unpack_le bs < 256 ^ length bs"
proof (induction bs)
  case Nil
  then show ?case by simp
next
  case (Cons b bs)
  have "uint b < 256" using uint_bounded [of b] by simp
  with Cons show ?case by simp
qed

lemma unpack_le_u32: "unpack_le (slice a (a + 4) xs) < 2 ^ 63"
proof -
  have "length (slice a (a + 4) xs) \<le> 4" by (simp add: slice_def)
  then have "(256::int) ^ length (slice a (a + 4) xs) \<le> 256 ^ 4"
    by (intro power_increasing) simp_all
  with unpack_le_less [of "slice a (a + 4) xs"] show ?thesis by simp
qed

lemma analyze_gpt_array:
  assumes ss: "0 \<le> sector_size self" "sector_size self < 2 ^ 63"
    and hdr: "hdr = gpt_header img (sector_size self)" "92 \<le> length hdr"
    and off: "unpack_le (slice 72 80 hdr) * sector_size self < 2 ^ 63"
  shows "analyze_gpt self img =
     (case gpt_array 128 name_in_code img (sector_size self)
             (nat (unpack_le (slice 72 80 hdr) * sector_size self))
             (nat (unpack_le (slice 84 88 hdr)))
             (nat (unpack_le (slice 80 84 hdr))) of
        (ps, r) \<Rightarrow> (self\<lparr>partitions := partitions self @ ps\<rparr>, r))"
proof -
  have sk: "file_seek (sector_size self) = Inr (nat (sector_size self))"
    using ss by (simp add: file_seek_def)
  have rd: "file_read img (nat (sector_size self)) (sector_size self) =
      Inr (hdr, nat (sector_size self) + length hdr)"
    using ss hdr(1) by (simp add: file_read_def gpt_header_def)
  have "0 \<le> unpack_le (slice 72 80 hdr) * sector_size self"
    using ss unpack_le_nonneg by simp
  then have sk2: "file_seek (unpack_le (slice 72 80 hdr) * sector_size self) =
      Inr (nat (unpack_le (slice 72 80 hdr) * sector_size self))"
    using off by (simp add: file_seek_def)
  have n92: "\<not> length hdr < 92" using hdr(2) by simp
  have entry_size_less: "unpack_le (slice 84 88 hdr) < 2 ^ 63"
    using unpack_le_u32 [of 84 hdr] by simp
  show ?thesis
    unfolding analyze_gpt_def sk rd sum.case prod.case Let_def sk2 gpt_array_def
    using n92
    by (simp only: if_False gpt_loop_emit [OF unpack_le_nonneg entry_size_less])
qed

lemma utf16le_ignore_zeros:
  "utf16le_ignore (replicate (2 * n) 0 @ xs) = replicate n 0 @ utf16le_ignore xs"
  by (induction n) (simp_all add: Let_def)

lemma utf16le_ignore_ascii:
  "unat c < 0xD800 \<Longrightarrow> utf16le_ignore (c # 0 # xs) = unat c # utf16le_ignore xs"
  by (simp add: Let_def)

lemma dropWhile_zeros [simp]:
  "dropWhile (\<lambda>c. c = (0::nat)) (replicate n 0 @ xs) = dropWhile (\<lambda>c. c = 0) xs"
  by (induction n) simp_all

lemma gpt_img_256_header:
  "gpt_header gpt_img_256 512 =
     replicate 72 0 @ [2, 0, 0, 0, 0, 0, 0, 0] @ [1, 0, 0, 0] @ [0, 1, 0, 0] @ replicate 424 0"
  by (simp add: gpt_header_def gpt_img_256_def)

lemma gpt_img_256_record:
  "gpt_record gpt_img_256 1024 256 0 =
     [1, 0, 0, 0, 0, 0, 0, 0, 0, 0, 0, 0, 0, 0, 0, 0] @
      [0xAB, 0xCD, 0, 0, 0, 0, 0, 0, 0, 0, 0, 0, 0, 0, 0, 0] @
      [34, 0, 0, 0, 0, 0, 0, 0] @ [100, 0, 0, 0, 0, 0, 0, 0] @ replicate 8 0 @
      [65, 0] @ replicate 70 0 @ [66, 0] @ replicate 126 0"
  by (simp add: gpt_record_def gpt_img_256_def)

lemma name_in_code_AB:
  "name_in_code (gpt_record gpt_img_256 1024 256 0) = [65]"
proof -
  have "slice 56 128 (gpt_record gpt_img_256 1024 256 0) = [65, 0] @ replicate 70 0"
    unfolding gpt_img_256_record by (simp add: slice_def)
  then show ?thesis
    unfolding name_in_code_def strip_nul_def
    using dropWhile_zeros [of 35 "[]"]
    by (simp add: utf16le_ignore_ascii utf16le_ignore_zeros [of 35 "[]", simplified])
qed

lemma name_in_spec_AB:
  "name_in_spec 256 (gpt_record gpt_img_256 1024 256 0) = 65 # replicate 35 0 @ [66]"
proof -
  have "slice 56 256 (gpt_record gpt_img_256 1024 256 0) =
      [65, 0] @ replicate 70 0 @ [66, 0] @ replicate 126 0"
    unfolding gpt_img_256_record by (simp add: slice_def)
  then show ?thesis
    unfolding name_in_spec_def
    using dropWhile_zeros [of 63 "[]"]
    by (simp add: utf16le_ignore_ascii utf16le_ignore_zeros [of 35, simplified]
        utf16le_ignore_zeros [of 63 "[]", simplified])
qed

lemma gpt_img_256_analyze:
  "analyze_gpt (init 512) gpt_img_256 =
     (case gpt_array 128 name_in_code gpt_img_256 512 1024 256 1 of
        (ps, r) \<Rightarrow> ((init 512)\<lparr>partitions := ps\<rparr>, r))"
  using analyze_gpt_array [of "init 512" "gpt_header gpt_img_256 512" gpt_img_256]
  by (simp add: init_def gpt_img_256_header slice_def)

lemma gpt_img_256_entry:
  "gpt_entry 512 nm 1 (gpt_record gpt_img_256 1024 256 0) =
     Inr (Some \<lparr>number = 1, type = asc ''Unknown GUID (01000000...)'', type_code = 0,
                start_sector = 34, size_sectors = 67, end_sector = 100,
                size_bytes = 34304, size_human = ''33.50 KB'',
                guid = ''abcd0000000000000000000000000000'',
                name = nm (gpt_record gpt_img_256 1024 256 0),
                attributes = 0, is_active = False\<rparr>)"
  unfolding gpt_img_256_record
  by (simp add: gpt_entry_def slice_def Let_def human_eval get_gpt_partition_type_def
      gpt_types_def hexlify_def hex_lower_def upper_def upper_char_def)

lemma gpt_img_cut_record:
  "gpt_record (take 1224 gpt_img_256) 1024 256 0 =
     [1, 0, 0, 0, 0, 0, 0, 0, 0, 0, 0, 0, 0, 0, 0, 0] @
      [0xAB, 0xCD, 0, 0, 0, 0, 0, 0, 0, 0, 0, 0, 0, 0, 0, 0] @
      [34, 0, 0, 0, 0, 0, 0, 0] @ [100, 0, 0, 0, 0, 0, 0, 0] @ replicate 8 0 @
      [65, 0] @ replicate 70 0 @ [66, 0] @ replicate 70 0"
  by (simp add: gpt_record_def gpt_img_256_def)

lemma gpt_img_cut_analyze:
  "analyze_gpt (init 512) (take 1224 gpt_img_256) =
     (case gpt_array 128 name_in_code (take 1224 gpt_img_256) 512 1024 256 1 of
        (ps, r) \<Rightarrow> ((init 512)\<lparr>partitions := ps\<rparr>, r))"
proof -
  have "gpt_header (take 1224 gpt_img_256) 512 = gpt_header gpt_img_256 512"
    by (simp add: gpt_header_def gpt_img_256_def)
  then show ?thesis
    using analyze_gpt_array [of "init 512" "gpt_header gpt_img_256 512" "take 1224 gpt_img_256"]
    by (simp add: init_def gpt_img_256_header slice_def)
qed

lemma gpt_img_cut_entry:
  "\<exists>p. gpt_entry 512 nm 1 (gpt_record (take 1224 gpt_img_256) 1024 256 0) = Inr (Some p)"
  unfolding gpt_img_cut_record
  by (simp add: gpt_entry_def slice_def Let_def human_eval)

section \<open>C6: the declared entry size\<close>

text \<open>
  C6 as stated fails on an image whose header declares 256-byte entries. The source takes
  the name from bytes 56 to 128 of the record and gives \<open>A\<close>, where the field as the
  claim describes it (bytes 56 to 256, trailing NULs trimmed) gives \<open>A\<close>, 35 NULs and
  \<open>B\<close>. And when only 200 bytes of the record are left in the image, the source still
  decodes it, where a short-read check against the declared size stops before it.
\<close>

theorem gpt_entry_size_counterexample:
  "map name (partitions (fst (analyze_gpt (init 512) gpt_img_256))) = [[65]] \<and>
   map name (fst (gpt_array 256 (name_in_spec 256) gpt_img_256 512 1024 256 1)) =
     [65 # replicate 35 0 @ [66]] \<and>
   length (partitions (fst (analyze_gpt (init 512) (take 1224 gpt_img_256)))) = 1 \<and>
   fst (gpt_array 256 (name_in_spec 256) (take 1224 gpt_img_256) 512 1024 256 1) = []"
proof -
  have len: "length (gpt_record gpt_img_256 1024 256 0) = 256"
    unfolding gpt_img_256_record by simp
  have "gpt_array 128 name_in_code gpt_img_256 512 1024 256 1 =
      gpt_emit 512 name_in_code 1 [gpt_record gpt_img_256 1024 256 0]"
    by (simp add: gpt_array_def len)
  then have a: "map name (partitions (fst (analyze_gpt (init 512) gpt_img_256))) = [[65]]"
    by (simp add: gpt_img_256_analyze gpt_img_256_entry name_in_code_AB)
  have "gpt_array 256 (name_in_spec 256) gpt_img_256 512 1024 256 1 =
      gpt_emit 512 (name_in_spec 256) 1 [gpt_record gpt_img_256 1024 256 0]"
    by (simp add: gpt_array_def len)
  then have b: "map name (fst (gpt_array 256 (name_in_spec 256) gpt_img_256 512 1024 256 1)) =
     [65 # replicate 35 0 @ [66]]"
    by (simp add: gpt_img_256_entry name_in_spec_AB)
  have len2: "length (gpt_record (take 1224 gpt_img_256) 1024 256 0) = 200"
    unfolding gpt_img_cut_record by simp
  obtain p where p: "gpt_entry 512 name_in_code 1
      (gpt_record (take 1224 gpt_img_256) 1024 256 0) = Inr (Some p)"
    using gpt_img_cut_entry by blast
  have "gpt_array 128 name_in_code (take 1224 gpt_img_256) 512 1024 256 1 =
      gpt_emit 512 name_in_code 1 [gpt_record (take 1224 gpt_img_256) 1024 256 0]"
    by (simp add: gpt_array_def len2)
  then have c: "length (partitions (fst (analyze_gpt (init 512) (take 1224 gpt_img_256)))) = 1"
    by (simp add: gpt_img_cut_analyze p)
  have d: "fst (gpt_array 256 (name_in_spec 256) (take 1224 gpt_img_256) 512 1024 256 1) = []"
    by (simp add: gpt_array_def len2)
  from a b c d show ?thesis by simp
qed

text \<open>
  C6, as amended. When the header is read (\<open>sector_size\<close> and the table offset are
  valid file offsets, the header has 92 bytes or more), \<open>_analyze_gpt\<close> appends the
  entries of the records \<open>0..num_partition_entries-1\<close> of the array at
  \<open>partition_entries_lba * sector_size\<close>: record \<open>i\<close> is read at the table offset plus
  \<open>i\<close> times the header-declared \<open>partition_entry_size\<close>, with that size as its
  length, so the stepping honours the declared size. The short-read check compares the
  bytes read with the constant 128, not with the declared size: the loop stops at the
  first record with fewer than 128 bytes. The name of an entry is the bytes 56 to 128 of
  its record whatever the declared size, decoded as UTF-16 little-endian with undecodable
  units dropped, and with the NUL characters at both ends removed.
\<close>

theorem gpt_entry_array:
  "0 \<le> sector_size self \<and> sector_size self < 2 ^ 63 \<and>
   hdr = gpt_header img (sector_size self) \<and> 92 \<le> length hdr \<and>
   unpack_le (slice 72 80 hdr) * sector_size self < 2 ^ 63 \<longrightarrow>
   analyze_gpt self img =
     (case gpt_array 128 name_in_code img (sector_size self)
             (nat (unpack_le (slice 72 80 hdr) * sector_size self))
             (nat (unpack_le (slice 84 88 hdr)))
             (nat (unpack_le (slice 80 84 hdr))) of
        (ps, r) \<Rightarrow> (self\<lparr>partitions := partitions self @ ps\<rparr>, r))"
  using analyze_gpt_array by blast

theorem gpt_entry_array_witness:
  "92 \<le> length (gpt_header gpt_img_256 512) \<and>
   unpack_le (slice 72 80 (gpt_header gpt_img_256 512)) * 512 = 1024 \<and>
   unpack_le (slice 84 88 (gpt_header gpt_img_256 512)) = 256 \<and>
   unpack_le (slice 80 84 (gpt_header gpt_img_256 512)) = 1 \<and>
   analyze_gpt (init 512) gpt_img_256 =
     (\<lparr>sector_size = 512, partition_type = UNKNOWN,
       partitions =
         [\<lparr>number = 1, type = asc ''Unknown GUID (01000000...)'', type_code = 0,
           start_sector = 34, size_sectors = 67, end_sector = 100,
           size_bytes = 34304, size_human = ''33.50 KB'',
           guid = ''abcd0000000000000000000000000000'',
           name = [65], attributes = 0, is_active = False\<rparr>],
       boot_signature = '''', disk_size = 0\<rparr>, None)"
proof -
  have h: "92 \<le> length (gpt_header gpt_img_256 512)"
    "unpack_le (slice 72 80 (gpt_header gpt_img_256 512)) * 512 = 1024"
    "unpack_le (slice 84 88 (gpt_header gpt_img_256 512)) = 256"
    "unpack_le (slice 80 84 (gpt_header gpt_img_256 512)) = 1"
    by (simp_all add: gpt_img_256_header slice_def)
  have len: "length (gpt_record gpt_img_256 1024 256 0) = 256"
    unfolding gpt_img_256_record by simp
  have "analyze_gpt (init 512) gpt_img_256 =
     (case gpt_array 128 name_in_code gpt_img_256 512 1024 256 1 of
        (ps, r) \<Rightarrow> ((init 512)\<lparr>partitions := partitions (init 512) @ ps\<rparr>, r))"
    using h gpt_entry_array [of "init 512" "gpt_header gpt_img_256 512" gpt_img_256]
    by (simp add: init_def)
  then have "analyze_gpt (init 512) gpt_img_256 =
     (\<lparr>sector_size = 512, partition_type = UNKNOWN,
       partitions =
         [\<lparr>number = 1, type = asc ''Unknown GUID (01000000...)'', type_code = 0,
           start_sector = 34, size_sectors = 67, end_sector = 100,
           size_bytes = 34304, size_human = ''33.50 KB'',
           guid = ''abcd0000000000000000000000000000'',
           name = [65], attributes = 0, is_active = False\<rparr>],
       boot_signature = '''', disk_size = 0\<rparr>, None)"
    by (simp add: gpt_array_def len gpt_img_256_entry name_in_code_AB init_def)
  with h show ?thesis by simp
qed

section \<open>Where the entries come from\<close>

lemma mbr_loop_origin:
  "\<forall>e\<in>set (partitions self). mbr_entry_ok sector e \<Longrightarrow> set idxs \<subseteq> {0, 1, 2, 3} \<Longrightarrow>
   \<forall>e\<in>set (partitions (fst (mbr_loop sector idxs self))). mbr_entry_ok sector e"
proof (induction idxs arbitrary: self)
  case Nil
  then show ?case by simp
next
  case (Cons i rest)
  let ?pd = "mbr_slot sector i"
  have i: "i \<in> {0, 1, 2, 3}" and rest: "set rest \<subseteq> {0, 1, 2, 3}"
    using Cons.prems(2) by auto
  show ?case
  proof (cases "length ?pd < 16 \<or> mbr_slot_empty sector i")
    case True
    then show ?thesis
      using Cons.IH [OF Cons.prems(1) rest]
      by (auto simp: Let_def mbr_slot_def mbr_slot_empty_def)
  next
    case False
    then have len: "length ?pd = 16"
      by (auto simp: mbr_slot_def slice_def)
    show ?thesis
    proof (cases "bytes_to_human (unpack_le (slice 12 16 ?pd) * sector_size self)")
      case (Inl err)
      with False Cons.prems(1) show ?thesis
        by (auto simp: Let_def mbr_slot_def mbr_slot_empty_def)
    next
      case (Inr h)
      let ?p = "\<lparr>number = int i + 1,
          type = get_partition_description (uint (?pd ! 4)),
          type_code = uint (?pd ! 4),
          start_sector = unpack_le (slice 8 12 ?pd),
          size_sectors = unpack_le (slice 12 16 ?pd),
          end_sector = unpack_le (slice 8 12 ?pd) + unpack_le (slice 12 16 ?pd) - 1,
          size_bytes = unpack_le (slice 12 16 ?pd) * sector_size self,
          size_human = h, guid = '''', name = [], attributes = 0,
          is_active = (?pd ! 0 = 0x80)\<rparr>"
      have ok: "mbr_entry_ok sector ?p"
        unfolding mbr_entry_ok_def using False len i by auto
      have step: "mbr_loop sector (i # rest) self =
          mbr_loop sector rest (self\<lparr>partitions := partitions self @ [?p]\<rparr>)"
        using False Inr by (auto simp: Let_def mbr_slot_def mbr_slot_empty_def)
      have "\<forall>e\<in>set (partitions (self\<lparr>partitions := partitions self @ [?p]\<rparr>)).
          mbr_entry_ok sector e"
        using Cons.prems(1) ok by simp
      from Cons.IH [OF this rest] show ?thesis
        unfolding step .
    qed
  qed
qed

lemma gpt_emit_origin:
  "e \<in> set (fst (gpt_emit ss name_of pn ds)) \<Longrightarrow> \<forall>d\<in>set ds. 128 \<le> length d \<Longrightarrow>
   \<exists>d\<in>set ds. gpt_record_entry d e"
proof (induction ds arbitrary: pn)
  case Nil
  then show ?case by simp
next
  case (Cons d ds)
  show ?case
  proof (cases "gpt_entry ss name_of pn d")
    case (Inl err)
    with Cons.prems show ?thesis by simp
  next
    case (Inr res)
    show ?thesis
    proof (cases res)
      case None
      with Inr Cons show ?thesis by auto
    next
      case (Some p)
      have p: "gpt_record_entry d p"
        using Inr Some Cons.prems(2)
        by (auto simp: gpt_entry_def gpt_record_entry_def Let_def
            split: if_splits sum.splits)
      from Cons.prems(1) Inr Some
      have "e = p \<or> e \<in> set (fst (gpt_emit ss name_of (pn + 1) ds))"
        by (auto split: prod.splits)
      then show ?thesis
      proof
        assume "e = p"
        with p show ?thesis by simp
      next
        assume "e \<in> set (fst (gpt_emit ss name_of (pn + 1) ds))"
        from Cons.IH [OF this] Cons.prems(2) show ?thesis by auto
      qed
    qed
  qed
qed

lemma analyze_gpt_origin:
  "e \<in> set (partitions (fst (analyze_gpt (init ss) img))) \<Longrightarrow> gpt_entry_ok img ss e"
proof -
  assume e: "e \<in> set (partitions (fst (analyze_gpt (init ss) img)))"
  let ?hdr = "gpt_header img ss"
  let ?off = "nat (unpack_le (slice 72 80 ?hdr) * ss)"
  let ?esz = "nat (unpack_le (slice 84 88 ?hdr))"
  let ?num = "nat (unpack_le (slice 80 84 ?hdr))"
  let ?ds = "takeWhile (\<lambda>d. 128 \<le> length d) (map (gpt_record img ?off ?esz) [0..<?num])"
  have ok: "0 \<le> ss \<and> ss < 2 ^ 63 \<and> 92 \<le> length ?hdr \<and>
      unpack_le (slice 72 80 ?hdr) * ss < 2 ^ 63"
  proof (rule ccontr)
    assume "\<not> ?thesis"
    then have "partitions (fst (analyze_gpt (init ss) img)) = []"
      by (auto simp: analyze_gpt_def init_def file_seek_def file_read_def gpt_header_def
          Let_def split: sum.splits if_splits)
    with e show False by simp
  qed
  then have "analyze_gpt (init ss) img =
      (case gpt_array 128 name_in_code img ss ?off ?esz ?num of
         (ps, r) \<Rightarrow> ((init ss)\<lparr>partitions := partitions (init ss) @ ps\<rparr>, r))"
    using analyze_gpt_array [of "init ss" ?hdr img] by (simp add: init_def)
  with e have "e \<in> set (fst (gpt_emit ss name_in_code 1 ?ds))"
    by (simp add: gpt_array_def init_def split: prod.splits)
  moreover have "\<forall>d\<in>set ?ds. 128 \<le> length d"
    by (auto dest: set_takeWhileD)
  ultimately obtain d where d: "d \<in> set ?ds" "gpt_record_entry d e"
    using gpt_emit_origin by blast
  from d(1) have "d \<in> set (map (gpt_record img ?off ?esz) [0..<?num])"
    by (auto dest: set_takeWhileD)
  then obtain i where "i \<in> {0..<?num}" "d = gpt_record img ?off ?esz i"
    by auto
  with d(2) show ?thesis
    unfolding gpt_entry_ok_def Let_def by blast
qed

section \<open>C4: the entries that are materialized\<close>

text \<open>
  C4, as amended. For every input and every entry appended by the MBR or the GPT decoder
  of a new analyzer, \<open>end_sector = start_sector + size_sectors - 1\<close>, so that
  \<open>start_sector \<le> end_sector\<close> holds exactly when \<open>size_sectors \<ge> 1\<close>, which the
  decoders do not check. An entry is never made from an empty sentinel: an MBR entry is
  the entry of a complete slot that is not empty (\<open>type_code == 0\<close> and
  \<open>lba_start == 0\<close>), and a GPT entry is the entry of a record of the array, of 128
  bytes or more, whose type GUID is not all zero and whose \<open>first_lba\<close> is not 0.
\<close>

theorem materialized_entries:
  "(\<forall>e\<in>set (partitions (fst (analyze_mbr (init ss) sector))).
      mbr_entry_ok sector e \<and>
      (start_sector e \<le> end_sector e \<longleftrightarrow> 1 \<le> size_sectors e)) \<and>
   (\<forall>e\<in>set (partitions (fst (analyze_gpt (init ss) img))).
      gpt_entry_ok img ss e \<and>
      (start_sector e \<le> end_sector e \<longleftrightarrow> 1 \<le> size_sectors e))"
proof (intro conjI ballI)
  fix e
  assume "e \<in> set (partitions (fst (analyze_mbr (init ss) sector)))"
  moreover have "\<forall>e\<in>set (partitions (init ss)). mbr_entry_ok sector e"
    by (simp add: init_def)
  ultimately show ok: "mbr_entry_ok sector e"
    unfolding analyze_mbr_def using mbr_loop_origin [of "init ss" sector "[0, 1, 2, 3]"]
    by auto
  then show "start_sector e \<le> end_sector e \<longleftrightarrow> 1 \<le> size_sectors e"
    by (auto simp: mbr_entry_ok_def)
next
  fix e
  assume "e \<in> set (partitions (fst (analyze_gpt (init ss) img)))"
  then show ok: "gpt_entry_ok img ss e"
    by (rule analyze_gpt_origin)
  then show "start_sector e \<le> end_sector e \<longleftrightarrow> 1 \<le> size_sectors e"
    by (auto simp: gpt_entry_ok_def gpt_record_entry_def Let_def)
qed

text \<open>
  C4 as stated fails: a slot of type \<open>0x83\<close> at LBA 2048 with a sector count of 0 is
  materialized, with \<open>end_sector = 2047 < start_sector\<close> and \<open>size_sectors = 0\<close>.
\<close>

theorem materialized_entries_counterexample:
  "partitions (fst (analyze_mbr (init 512) slot_zero_count)) =
     [\<lparr>number = 1, type = asc ''Linux Native'', type_code = 0x83,
       start_sector = 2048, size_sectors = 0, end_sector = 2047,
       size_bytes = 0, size_human = ''0.00 B'',
       guid = '''', name = [], attributes = 0, is_active = False\<rparr>]"
  by (simp add: slot_zero_count_def mbr_eval)

lemma gpt_img_256_partitions:
  "partitions (fst (analyze_gpt (init 512) gpt_img_256)) =
     [\<lparr>number = 1, type = asc ''Unknown GUID (01000000...)'', type_code = 0,
       start_sector = 34, size_sectors = 67, end_sector = 100,
       size_bytes = 34304, size_human = ''33.50 KB'',
       guid = ''abcd0000000000000000000000000000'',
       name = [65], attributes = 0, is_active = False\<rparr>]"
proof -
  have len: "length (gpt_record gpt_img_256 1024 256 0) = 256"
    unfolding gpt_img_256_record by simp
  show ?thesis
    by (simp add: gpt_img_256_analyze gpt_array_def len gpt_img_256_entry name_in_code_AB)
qed

theorem materialized_entries_witness:
  "map (\<lambda>e. (start_sector e, end_sector e, size_sectors e))
     (partitions (fst (analyze_mbr (init 512) slots_eXeY))) =
     [(2048, 206847, 204800), (206848, 210943, 4096)] \<and>
   mbr_entry_ok slots_eXeY (hd (partitions (fst (analyze_mbr (init 512) slots_eXeY)))) \<and>
   map (\<lambda>e. (start_sector e, end_sector e, size_sectors e))
     (partitions (fst (analyze_gpt (init 512) gpt_img_256))) = [(34, 100, 67)] \<and>
   gpt_entry_ok gpt_img_256 512 (hd (partitions (fst (analyze_gpt (init 512) gpt_img_256))))"
proof -
  have m: "map (\<lambda>e. (start_sector e, end_sector e, size_sectors e))
     (partitions (fst (analyze_mbr (init 512) slots_eXeY))) =
     [(2048, 206847, 204800), (206848, 210943, 4096)]"
    by (simp add: slots_eXeY_def mbr_eval)
  then have "partitions (fst (analyze_mbr (init 512) slots_eXeY)) \<noteq> []" by auto
  then have hm: "hd (partitions (fst (analyze_mbr (init 512) slots_eXeY))) \<in>
      set (partitions (fst (analyze_mbr (init 512) slots_eXeY)))"
    by simp
  have g: "map (\<lambda>e. (start_sector e, end_sector e, size_sectors e))
     (partitions (fst (analyze_gpt (init 512) gpt_img_256))) = [(34, 100, 67)]"
    by (simp add: gpt_img_256_partitions)
  have hg: "hd (partitions (fst (analyze_gpt (init 512) gpt_img_256))) \<in>
      set (partitions (fst (analyze_gpt (init 512) gpt_img_256)))"
    by (simp add: gpt_img_256_partitions)
  note t = materialized_entries [of 512 slots_eXeY gpt_img_256]
  from t hm have "mbr_entry_ok slots_eXeY
      (hd (partitions (fst (analyze_mbr (init 512) slots_eXeY))))"
    by blast
  moreover from t hg have "gpt_entry_ok gpt_img_256 512
      (hd (partitions (fst (analyze_gpt (init 512) gpt_img_256))))"
    by blast
  ultimately show ?thesis using m g by simp
qed

section \<open>A decoder only appends to the partition list\<close>

lemma mbr_loop_related:
  "sector_size t = sector_size self \<Longrightarrow>
   \<exists>ps r. mbr_loop sector idxs self = (self\<lparr>partitions := partitions self @ ps\<rparr>, r) \<and>
          mbr_loop sector idxs t = (t\<lparr>partitions := partitions t @ ps\<rparr>, r)"
proof (induction idxs arbitrary: self t)
  case Nil
  then show ?case by (auto intro: exI [of _ "[]"])
next
  case (Cons i rest)
  let ?pd = "slice (446 + i * 16) (446 + i * 16 + 16) sector"
  show ?case
  proof (cases "length ?pd < 16 \<or>
      (uint (?pd ! 4) = 0 \<and> unpack_le (slice 8 12 ?pd) = 0)")
    case True
    then have "mbr_loop sector (i # rest) self = mbr_loop sector rest self"
      "mbr_loop sector (i # rest) t = mbr_loop sector rest t"
      by (auto simp: Let_def)
    with Cons.IH [OF Cons.prems] show ?thesis by simp
  next
    case False
    show ?thesis
    proof (cases "bytes_to_human (unpack_le (slice 12 16 ?pd) * sector_size self)")
      case (Inl err)
      with False Cons.prems have
        "mbr_loop sector (i # rest) self = (self\<lparr>partitions := partitions self @ []\<rparr>, Some err)"
        "mbr_loop sector (i # rest) t = (t\<lparr>partitions := partitions t @ []\<rparr>, Some err)"
        by (auto simp: Let_def)
      then show ?thesis by blast
    next
      case (Inr h)
      let ?p = "\<lparr>number = int i + 1,
          type = get_partition_description (uint (?pd ! 4)),
          type_code = uint (?pd ! 4),
          start_sector = unpack_le (slice 8 12 ?pd),
          size_sectors = unpack_le (slice 12 16 ?pd),
          end_sector = unpack_le (slice 8 12 ?pd) + unpack_le (slice 12 16 ?pd) - 1,
          size_bytes = unpack_le (slice 12 16 ?pd) * sector_size self,
          size_human = h, guid = '''', name = [], attributes = 0,
          is_active = (?pd ! 0 = 0x80)\<rparr>"
      let ?self = "self\<lparr>partitions := partitions self @ [?p]\<rparr>"
      let ?t = "t\<lparr>partitions := partitions t @ [?p]\<rparr>"
      have step: "mbr_loop sector (i # rest) self = mbr_loop sector rest ?self"
        "mbr_loop sector (i # rest) t = mbr_loop sector rest ?t"
        using False Inr Cons.prems by (auto simp: Let_def)
      have "sector_size ?t = sector_size ?self" using Cons.prems by simp
      from Cons.IH [OF this] obtain ps r where
        "mbr_loop sector rest ?self = (?self\<lparr>partitions := partitions ?self @ ps\<rparr>, r)"
        "mbr_loop sector rest ?t = (?t\<lparr>partitions := partitions ?t @ ps\<rparr>, r)"
        by blast
      then have "mbr_loop sector (i # rest) self =
          (self\<lparr>partitions := partitions self @ (?p # ps)\<rparr>, r)"
        "mbr_loop sector (i # rest) t = (t\<lparr>partitions := partitions t @ (?p # ps)\<rparr>, r)"
        unfolding step by simp_all
      then show ?thesis by blast
    qed
  qed
qed

lemma analyze_mbr_append:
  "analyze_mbr self sector =
     (self\<lparr>partitions := partitions self @
         partitions (fst (analyze_mbr (init (sector_size self)) sector))\<rparr>,
      snd (analyze_mbr (init (sector_size self)) sector))"
proof -
  have "sector_size (init (sector_size self)) = sector_size self"
    by (simp add: init_def)
  from mbr_loop_related [OF this, of sector "[0, 1, 2, 3]"] show ?thesis
    unfolding analyze_mbr_def by (auto simp: init_def)
qed

lemma analyze_gpt_related:
  "sector_size t = sector_size self \<Longrightarrow>
   \<exists>ps r. analyze_gpt self img = (self\<lparr>partitions := partitions self @ ps\<rparr>, r) \<and>
          analyze_gpt t img = (t\<lparr>partitions := partitions t @ ps\<rparr>, r)"
proof -
  assume eq: "sector_size t = sector_size self"
  let ?ss = "sector_size self"
  let ?hdr = "gpt_header img ?ss"
  show ?thesis
  proof (cases "0 \<le> ?ss \<and> ?ss < 2 ^ 63 \<and> 92 \<le> length ?hdr \<and>
      unpack_le (slice 72 80 ?hdr) * ?ss < 2 ^ 63")
    case True
    obtain ps r where "gpt_array 128 name_in_code img ?ss
        (nat (unpack_le (slice 72 80 ?hdr) * ?ss)) (nat (unpack_le (slice 84 88 ?hdr)))
        (nat (unpack_le (slice 80 84 ?hdr))) = (ps, r)"
      by (cases "gpt_array 128 name_in_code img ?ss
        (nat (unpack_le (slice 72 80 ?hdr) * ?ss)) (nat (unpack_le (slice 84 88 ?hdr)))
        (nat (unpack_le (slice 80 84 ?hdr)))") blast
    with True analyze_gpt_array [of self ?hdr img] analyze_gpt_array [of t ?hdr img] eq
    have "analyze_gpt self img = (self\<lparr>partitions := partitions self @ ps\<rparr>, r)"
      "analyze_gpt t img = (t\<lparr>partitions := partitions t @ ps\<rparr>, r)"
      by simp_all
    then show ?thesis by blast
  next
    case False
    then have "fst (analyze_gpt self img) = self \<and> fst (analyze_gpt t img) = t \<and>
        snd (analyze_gpt self img) = snd (analyze_gpt t img)"
      using eq
      by (auto simp: analyze_gpt_def file_seek_def file_read_def gpt_header_def Let_def
          split: sum.splits if_splits)
    then have
      "analyze_gpt self img =
         (self\<lparr>partitions := partitions self @ []\<rparr>, snd (analyze_gpt self img))"
      "analyze_gpt t img = (t\<lparr>partitions := partitions t @ []\<rparr>, snd (analyze_gpt self img))"
      by (simp_all add: prod_eq_iff)
    then show ?thesis by blast
  qed
qed

lemma analyze_gpt_append:
  "analyze_gpt self img =
     (self\<lparr>partitions := partitions self @
         partitions (fst (analyze_gpt (init (sector_size self)) img))\<rparr>,
      snd (analyze_gpt (init (sector_size self)) img))"
proof -
  have "sector_size (init (sector_size self)) = sector_size self"
    by (simp add: init_def)
  from analyze_gpt_related [OF this, of img] show ?thesis
    by (auto simp: init_def)
qed

section \<open>C8: decoding twice\<close>

lemma analyze_Some:
  assumes "file_read img 0 (sector_size self) = Inr (sector0, pos)"
    and "\<not> int (length sector0) < sector_size self"
    and "detect_partition_type (self\<lparr>disk_size := int (length img)\<rparr>) sector0 = Inr self2"
  shows "analyze self (Some img) =
     (if partition_type self2 = MBR
      then (snd (analyze_mbr self2 sector0) = None, fst (analyze_mbr self2 sector0))
      else if partition_type self2 = GPT
      then (snd (analyze_gpt self2 img) = None, fst (analyze_gpt self2 img))
      else (False, self2))"
  using assms
  by (auto simp: analyze_def Let_def split: prod.splits option.splits)

lemmas analyze_eval = decode_def analyze_def init_def file_read_def file_seek_def
  detect_partition_type_def has_boot_signature_def nth_append Let_def

lemma detect_partition_type_related:
  assumes "same_table a b"
  shows "(\<exists>e. detect_partition_type a sector = Inl e \<and> detect_partition_type b sector = Inl e) \<or>
     (\<exists>a2 b2. detect_partition_type a sector = Inr a2 \<and>
        detect_partition_type b sector = Inr b2 \<and> same_table a2 b2)"
  using assms
  by (auto simp: detect_partition_type_def same_table_def Let_def
      split: sum.splits bool.splits)

lemma analyze_related:
  assumes rel: "same_table a b"
  shows "fst (analyze a file) = fst (analyze b file) \<and>
     same_table (snd (analyze a file)) (snd (analyze b file))"
proof (cases "file")
  case None
  with rel show ?thesis by (simp add: analyze_def)
next
  case (Some img)
  let ?a1 = "a\<lparr>disk_size := int (length img)\<rparr>"
  let ?b1 = "b\<lparr>disk_size := int (length img)\<rparr>"
  have rel1: "same_table ?a1 ?b1" using rel by (simp add: same_table_def)
  have ss: "sector_size b = sector_size a" using rel by (simp add: same_table_def)
  have stop: ?thesis
    if "analyze a file = (False, ?a1)" "analyze b file = (False, ?b1)"
    using that rel1 by simp
  show ?thesis
  proof (cases "file_read img 0 (sector_size a)")
    case (Inl err)
    then show ?thesis
      using Some ss by (intro stop) (simp_all add: analyze_def)
  next
    case (Inr rd)
    obtain sector0 pos where rd: "rd = (sector0, pos)" by (cases rd)
    show ?thesis
    proof (cases "int (length sector0) < sector_size a")
      case True
      then show ?thesis
        using Some Inr rd ss by (intro stop) (simp_all add: analyze_def)
    next
      case False
      from detect_partition_type_related [OF rel1, of sector0] show ?thesis
      proof (elim disjE exE conjE)
        fix e
        assume "detect_partition_type ?a1 sector0 = Inl e"
          "detect_partition_type ?b1 sector0 = Inl e"
        then show ?thesis
          using Some Inr rd False ss by (intro stop) (simp_all add: analyze_def)
      next
        fix a2 b2
        assume da: "detect_partition_type ?a1 sector0 = Inr a2"
          and db: "detect_partition_type ?b1 sector0 = Inr b2"
          and rel2: "same_table a2 b2"
        have ra: "file_read img 0 (sector_size a) = Inr (sector0, pos)"
          and rb: "file_read img 0 (sector_size b) = Inr (sector0, pos)"
          using Inr rd ss by simp_all
        have lb: "\<not> int (length sector0) < sector_size b" using False ss by simp
        note A = analyze_Some [OF ra False da]
        note B = analyze_Some [OF rb lb db]
        have s2: "sector_size b2 = sector_size a2" "partition_type b2 = partition_type a2"
          "partitions b2 = partitions a2"
          using rel2 by (simp_all add: same_table_def)
        have m: "snd (analyze_mbr b2 sector0) = snd (analyze_mbr a2 sector0)"
          "same_table (fst (analyze_mbr a2 sector0)) (fst (analyze_mbr b2 sector0))"
          using analyze_mbr_append [of a2 sector0] analyze_mbr_append [of b2 sector0] s2
          by (simp_all add: same_table_def)
        have g: "snd (analyze_gpt b2 img) = snd (analyze_gpt a2 img)"
          "same_table (fst (analyze_gpt a2 img)) (fst (analyze_gpt b2 img))"
          using analyze_gpt_append [of a2 img] analyze_gpt_append [of b2 img] s2
          by (simp_all add: same_table_def)
        show ?thesis
          unfolding Some A B using s2 m g rel2 by simp
      qed
    qed
  qed
qed

text \<open>
  C8. Decoding is idempotent: two decodes of the same bytes with the same sector size
  return the same boolean and structurally equal results, with the same table type and
  the same entries in the same order. No state is carried from one decode to the next:
  each decode runs \<open>analyze\<close> on an analyzer as \<open>__init__\<close> makes it, and the
  boolean, the table type and the entries that \<open>analyze\<close> gives are the same for every
  analyzer with that sector size, the table type Unknown and no partitions, whatever its
  other fields hold.
\<close>

theorem decode_idempotent:
  "(\<forall>r1 t1 r2 t2. decode file ss = (r1, t1) \<and> decode file ss = (r2, t2) \<longrightarrow>
      r2 = r1 \<and> partition_type t2 = partition_type t1 \<and> partitions t2 = partitions t1 \<and>
      t2 = t1) \<and>
   (\<forall>a. sector_size a = ss \<and> partition_type a = UNKNOWN \<and> partitions a = [] \<longrightarrow>
      fst (analyze a file) = fst (decode file ss) \<and>
      partition_type (snd (analyze a file)) = partition_type (snd (decode file ss)) \<and>
      partitions (snd (analyze a file)) = partitions (snd (decode file ss)))"
proof -
  have twice: "\<forall>r1 t1 r2 t2. decode file ss = (r1, t1) \<and> decode file ss = (r2, t2) \<longrightarrow>
      r2 = r1 \<and> partition_type t2 = partition_type t1 \<and> partitions t2 = partitions t1 \<and>
      t2 = t1"
    by auto
  have fresh: "fst (analyze a file) = fst (decode file ss) \<and>
      partition_type (snd (analyze a file)) = partition_type (snd (decode file ss)) \<and>
      partitions (snd (analyze a file)) = partitions (snd (decode file ss))"
    if "sector_size a = ss \<and> partition_type a = UNKNOWN \<and> partitions a = []"
    for a :: DiskAnalyzer
  proof -
    from that have "same_table a (init ss)" by (simp add: same_table_def init_def)
    from analyze_related [OF this, of "file"] show ?thesis
      by (simp add: decode_def same_table_def)
  qed
  from twice fresh show ?thesis by blast
qed

theorem decode_idempotent_witness:
  "decode (Some mbr_linux_image) 512 =
     (True, \<lparr>sector_size = 512, partition_type = MBR,
        partitions =
          [\<lparr>number = 1, type = asc ''Linux Native'', type_code = 0x83,
            start_sector = 2048, size_sectors = 204800, end_sector = 206847,
            size_bytes = 104857600, size_human = ''100.00 MB'',
            guid = '''', name = [], attributes = 0, is_active = True\<rparr>],
        boot_signature = ''55 AA'', disk_size = 512\<rparr>) \<and>
   partitions (snd (analyze \<lparr>sector_size = 512, partition_type = UNKNOWN, partitions = [],
                              boot_signature = ''AB CD'', disk_size = 7\<rparr>
                     (Some mbr_linux_image))) =
     [\<lparr>number = 1, type = asc ''Linux Native'', type_code = 0x83,
       start_sector = 2048, size_sectors = 204800, end_sector = 206847,
       size_bytes = 104857600, size_human = ''100.00 MB'',
       guid = '''', name = [], attributes = 0, is_active = True\<rparr>]"
proof -
  let ?p = "\<lparr>number = 1, type = asc ''Linux Native'', type_code = 0x83,
      start_sector = 2048, size_sectors = 204800, end_sector = 206847,
      size_bytes = 104857600, size_human = ''100.00 MB'',
      guid = '''', name = [], attributes = 0, is_active = True\<rparr>"
  let ?a = "\<lparr>sector_size = 512, partition_type = UNKNOWN, partitions = [],
      boot_signature = ''AB CD'', disk_size = 7\<rparr>"
  have one: "decode (Some mbr_linux_image) 512 =
      (True, \<lparr>sector_size = 512, partition_type = MBR, partitions = [?p],
         boot_signature = ''55 AA'', disk_size = 512\<rparr>)"
    by (simp add: mbr_linux_image_def analyze_eval mbr_eval)
  have "partitions (snd (analyze ?a (Some mbr_linux_image))) =
      partitions (snd (decode (Some mbr_linux_image) 512))"
    using decode_idempotent [of "Some mbr_linux_image" 512, THEN conjunct2, rule_format, of ?a]
    by simp
  with one show ?thesis by simp
qed

section \<open>C2: the GPT signature in sector 1\<close>

text \<open>
  C2. The claim is that an image without the boot signature whose sector 1 starts with
  \<open>EFI PART\<close> is classified as GPT. The source looks for the signature at bytes
  \<open>0x200..0x208\<close> of the buffer that holds sector 0 alone: with 512-byte sectors that
  slice is empty, the type stays Unknown and \<open>analyze\<close> returns False, as on this
  image.
\<close>

theorem gpt_signature_missed:
  "decode (Some efi_part_image) 512 =
     (False, \<lparr>sector_size = 512, partition_type = UNKNOWN, partitions = [],
              boot_signature = '''', disk_size = 1024\<rparr>)"
  by (simp add: efi_part_image_def EFI_PART_def analyze_eval slice_def)

section \<open>C5: a truncated GPT header\<close>

text \<open>
  C5. The claim is that a GPT header of fewer than 92 bytes makes the decode fail. In the
  source \<open>_analyze_gpt\<close> prints its error message and returns normally, and
  \<open>analyze\<close> goes on to return True with an empty partition list, as on this image
  with a protective MBR and 50 bytes after it.
\<close>

theorem short_gpt_header_succeeds:
  "decode (Some short_header_image) 512 =
     (True, \<lparr>sector_size = 512, partition_type = GPT, partitions = [],
             boot_signature = ''55 AA'', disk_size = 562\<rparr>)"
  by (simp add: short_header_image_def analyze_eval analyze_gpt_def)

end
